theory Spec2Isabelle
  imports Complex_Main "HOL-Library.Word"
begin

unbundle bit_operations_syntax

section \<open>Paths: the part of \<open>std::filesystem::path\<close> the program uses\<close>

text \<open>
  The program is built with \<open>g++ -std=c++17\<close> for a POSIX system (see the Makefile), so a
  path is a byte string in the generic format: no root name, \<open>/\<close> as the only directory
  separator. The functions below follow the C++17 wording of \<open>[fs.path.decompose]\<close> and
  \<open>[fs.path.append]\<close>: \<open>filename\<close> is what follows the last separator, \<open>parent_path\<close> is
  the longest prefix with one element fewer (the path itself when it has no relative part),
  \<open>extension\<close> starts at the last period of the filename unless the filename is \<open>.\<close> or
  \<open>..\<close> or that period is its first character, and \<open>stem\<close> is the filename without its
  extension.

  Where a path starts with several separators the standard's wording and libstdc++ part:
  the longest prefix of \<open>//a\<close> with one element fewer is \<open>//\<close>, which \<open>parent_path\<close>
  below returns, and libstdc++ returns \<open>/\<close>. Both name the root directory, and a path that
  starts with one separator or none, as every path in the theorems below does, is not touched
  by the difference.
\<close>

type_synonym path = string

definition is_sep :: "char \<Rightarrow> bool" where
  "is_sep c = (c = CHR ''/'')"

definition filename :: "path \<Rightarrow> string" where
  "filename p = rev (takeWhile (\<lambda>c. \<not> is_sep c) (rev p))"

definition dir_part :: "path \<Rightarrow> path" where
  \<comment> \<open>the path up to and including its last separator\<close>
  "dir_part p = rev (dropWhile (\<lambda>c. \<not> is_sep c) (rev p))"

definition strip_seps :: "path \<Rightarrow> path" where
  \<comment> \<open>the path without its trailing separators\<close>
  "strip_seps p = rev (dropWhile is_sep (rev p))"

definition parent_path :: "path \<Rightarrow> path" where
  "parent_path p =
     (let pre = dir_part p; d = strip_seps pre
      in if d = [] then pre else d)"

definition extension :: "path \<Rightarrow> string" where
  "extension p =
     (let f = filename p;
          suffix = rev (takeWhile (\<lambda>c. c \<noteq> CHR ''.'') (rev f));
          front = rev (drop 1 (dropWhile (\<lambda>c. c \<noteq> CHR ''.'') (rev f)))
      in if f = ''.'' \<or> f = ''..'' then []
         else if CHR ''.'' \<notin> set f then []
         else if front = [] then []
         else CHR ''.'' # suffix)"

definition stem :: "path \<Rightarrow> string" where
  "stem p = take (length (filename p) - length (extension p)) (filename p)"

definition is_absolute :: "path \<Rightarrow> bool" where
  "is_absolute p = (case p of [] \<Rightarrow> False | c # _ \<Rightarrow> is_sep c)"

definition path_append :: "path \<Rightarrow> path \<Rightarrow> path" where
  \<comment> \<open>\<open>operator/\<close>: an absolute right operand replaces the left one; a separator is added
      only after a filename\<close>
  "path_append p q =
     (if is_absolute q then q
      else if filename p \<noteq> [] then p @ ''/'' @ q
      else p @ q)"

section \<open>The path planner and the extension filter (main.cpp)\<close>

definition allowedExtensions :: "string list" where
  "allowedExtensions = [''.wav'', ''.flac'', ''.ogg'', ''.mp3'']"

definition getOutPath :: "path \<Rightarrow> path" where
  "getOutPath inPath =
     (let dir = parent_path inPath;
          fName = stem inPath @ ''-SPC'' @ extension inPath
      in path_append dir fName)"

fun ext_loop :: "string \<Rightarrow> string list \<Rightarrow> bool" where
  \<comment> \<open>the \<open>for\<close> loop of \<open>hasAllowedExtension\<close>: the first equal entry returns true\<close>
  "ext_loop ext [] = False"
| "ext_loop ext (allowedExt # rest) = (if ext = allowedExt then True else ext_loop ext rest)"

definition hasAllowedExtension :: "path \<Rightarrow> bool" where
  "hasAllowedExtension filePath = ext_loop (extension filePath) allowedExtensions"

section \<open>The world the converter runs in\<close>

text \<open>
  \<open>SF_INFO\<close> is libsndfile's stream descriptor. The program reads \<open>frames\<close>, \<open>channels\<close>
  and \<open>format\<close> and writes \<open>samplerate\<close>, \<open>channels\<close> and \<open>format\<close>; the fields it never
  touches are left out. libsndfile reports a frame count that is not negative and at least one
  channel, and the sample buffer of a file that exists fits in memory, so both counts are
  natural numbers and their product does not wrap. \<open>format\<close> is the C \<open>int\<close> bit field;
  the constants are those of \<open>sndfile.h\<close>.
\<close>

type_synonym byte = "8 word"
type_synonym sample = real

record SF_INFO =
  frames :: nat
  samplerate :: int
  channels :: nat
  format :: "32 word"

definition SF_FORMAT_WAV :: "32 word" where
  "SF_FORMAT_WAV = 0x010000"

definition SF_FORMAT_PCM_16 :: "32 word" where
  "SF_FORMAT_PCM_16 = 0x0002"

definition SF_FORMAT_SUBMASK :: "32 word" where
  "SF_FORMAT_SUBMASK = 0x0000FFFF"

definition SF_FORMAT_TYPEMASK :: "32 word" where
  "SF_FORMAT_TYPEMASK = 0x0FFF0000"

text \<open>
  The two libraries are parameters of the model. \<open>sf_decode\<close> is what libsndfile makes of the
  bytes of a file: nothing when it does not recognise them, otherwise the descriptor and the
  interleaved samples it can decode. \<open>sf_encode\<close> is the file it writes for a descriptor and
  a sample sequence. \<open>sf_write_items\<close> is the number of items \<open>sf_write_double\<close> takes
  when it is handed that many for a file with that descriptor: libsndfile refuses a count that
  is not a multiple of the file's channel count, so the model leaves the number to the library.
  \<open>r8b_process\<close> is what \<open>CDSPResampler16(src, dst, maxLen).process\<close> leaves in the caller's
  buffer; the output pointer and the length it returns are never used by the program.
\<close>

record sound_lib =
  sf_decode :: "byte list \<Rightarrow> (SF_INFO \<times> sample list) option"
  sf_encode :: "SF_INFO \<Rightarrow> sample list \<Rightarrow> byte list"
  sf_write_items :: "SF_INFO \<Rightarrow> nat \<Rightarrow> nat"
  r8b_process :: "int \<Rightarrow> int \<Rightarrow> nat \<Rightarrow> sample list \<Rightarrow> sample list"

datatype SNDFILE = SndRead path | SndWrite path SF_INFO

text \<open>
  Every call the program makes to the conversion engine, to a library or to the file system
  is recorded in \<open>calls\<close>, in order, with the arguments it was made with. A handle that is
  \<open>NULL\<close> is \<open>None\<close>.
\<close>

datatype call =
    EngineConvert path path
  | SfOpenRead path
  | SfOpenWrite path SF_INFO
  | SfReadfDouble "SNDFILE option" nat
  | R8bResample int int nat
  | SfWriteDouble "SNDFILE option" nat
  | SfClose "SNDFILE option"
  | StreamCopy path path
  | CreateDirectory path
  | CreateDirectories path

datatype file_type = NotFound | Regular | Directory | Other

text \<open>
  The calls of \<open>std::filesystem\<close> that the program makes in their throwing form: each can
  end in a \<open>filesystem_error\<close>.
\<close>

datatype fs_call =
    FsIterate path
  | FsCreateDirectory path
  | FsRelative path path
  | FsCreateDirectories path

record dir_entry =
  entry_path :: path
  entry_regular :: bool

record world =
  files :: "path \<Rightarrow> byte list option"
  writable :: "path \<Rightarrow> bool"
  write_fails :: "path \<Rightarrow> bool"
  status :: "path \<Rightarrow> file_type"
  directory_iterator :: "path \<Rightarrow> dir_entry list"
  recursive_directory_iterator :: "path \<Rightarrow> dir_entry list"
  cwd :: path
  alloc_limit :: nat
  fs_throws :: "fs_call \<Rightarrow> bool"
  cout :: "string list"
  cerr :: "string list"
  calls :: "call list"

text \<open>
  \<open>files\<close> holds the bytes of every file that can be opened for reading, \<open>writable p\<close> says
  whether a file can be created or truncated at \<open>p\<close>, and \<open>write_fails p\<close> whether the device
  refuses the data written there. A path names a file by its spelling. \<open>alloc_limit\<close> is
  the largest number of samples a buffer can be allocated for, and \<open>fs_throws\<close> says which
  calls of \<open>std::filesystem\<close> throw.

  The program is modelled in two layers. What it can see fail, because a call hands it a null
  handle, a closed stream or a count, fails in the functions named after the source's:
  \<open>convert\<close>, \<open>processFile\<close>, \<open>processDirectory\<close> and \<open>main\<close> are the program as long as
  no call throws. The exceptions come with the functions whose names end in \<open>_run\<close>: nothing
  in the program catches them, so each ends the process, and a run that returns is the run of
  the function without the suffix.
\<close>

definition say_out :: "string \<Rightarrow> world \<Rightarrow> world" where
  "say_out line w = w\<lparr>cout := cout w @ [line]\<rparr>"

definition say_err :: "string \<Rightarrow> world \<Rightarrow> world" where
  "say_err line w = w\<lparr>cerr := cerr w @ [line]\<rparr>"

definition record_call :: "call \<Rightarrow> world \<Rightarrow> world" where
  "record_call c w = w\<lparr>calls := calls w @ [c]\<rparr>"

definition overwrite :: "'a list \<Rightarrow> 'a list \<Rightarrow> 'a list" where
  \<comment> \<open>a callee writes \<open>new\<close> at the start of a buffer holding \<open>old\<close>: the size stays\<close>
  "overwrite new old = take (length old) new @ drop (length new) old"

definition sf_info_of :: "sound_lib \<Rightarrow> world \<Rightarrow> path \<Rightarrow> SF_INFO option" where
  \<comment> \<open>the descriptor \<open>sf_open(p, SFM_READ, &sfinfo)\<close> fills in, when it returns a handle\<close>
  "sf_info_of lib w p =
     (case files w p of
        None \<Rightarrow> None
      | Some bs \<Rightarrow> map_option fst (sf_decode lib bs))"

definition sf_open_read :: "sound_lib \<Rightarrow> path \<Rightarrow> world \<Rightarrow> (SNDFILE \<times> SF_INFO) option \<times> world" where
  "sf_open_read lib p w =
     (let w' = record_call (SfOpenRead p) w
      in case sf_info_of lib w p of
           None \<Rightarrow> (None, w')
         | Some info \<Rightarrow> (Some (SndRead p, info), w'))"

definition sf_open_write :: "sound_lib \<Rightarrow> path \<Rightarrow> SF_INFO \<Rightarrow> world \<Rightarrow> SNDFILE option \<times> world" where
  "sf_open_write lib p info w =
     (let w' = record_call (SfOpenWrite p info) w
      in if writable w p
         then (Some (SndWrite p info), w'\<lparr>files := (files w')(p \<mapsto> sf_encode lib info [])\<rparr>)
         else (None, w'))"

definition stream_of :: "sound_lib \<Rightarrow> SNDFILE option \<Rightarrow> world \<Rightarrow> sample list" where
  \<comment> \<open>the samples a read handle can deliver\<close>
  "stream_of lib h w =
     (case h of
        Some (SndRead p) \<Rightarrow>
          (case files w p of
             None \<Rightarrow> []
           | Some bs \<Rightarrow> (case sf_decode lib bs of None \<Rightarrow> [] | Some (info, xs) \<Rightarrow> xs))
      | _ \<Rightarrow> [])"

definition sf_readf_double ::
    "sound_lib \<Rightarrow> SNDFILE option \<Rightarrow> nat \<Rightarrow> sample list \<Rightarrow> nat \<Rightarrow> world \<Rightarrow> (int \<times> sample list) \<times> world" where
  \<comment> \<open>reads at most \<open>n\<close> frames of \<open>ch\<close> channels into the buffer; returns the frames read\<close>
  "sf_readf_double lib h ch buf n w =
     (let got = take (n * ch) (stream_of lib h w)
      in ((if ch = 0 then 0 else int (length got div ch), overwrite got buf),
          record_call (SfReadfDouble h n) w))"

definition sf_write_double ::
    "sound_lib \<Rightarrow> SNDFILE option \<Rightarrow> sample list \<Rightarrow> nat \<Rightarrow> world \<Rightarrow> int \<times> world" where
  \<comment> \<open>a \<open>NULL\<close> handle or a failing device writes nothing and returns 0\<close>
  "sf_write_double lib h buf items w =
     (let w' = record_call (SfWriteDouble h items) w
      in case h of
           Some (SndWrite p info) \<Rightarrow>
             if write_fails w p then (0, w')
             else
               let n = sf_write_items lib info items
               in (int n, w'\<lparr>files := (files w')(p \<mapsto> sf_encode lib info (take n buf))\<rparr>)
         | _ \<Rightarrow> (0, w'))"

definition sf_close :: "SNDFILE option \<Rightarrow> world \<Rightarrow> world" where
  "sf_close h w = record_call (SfClose h) w"

section \<open>The conversion engine (converter.cpp)\<close>

record Converter =
  subformat :: "32 word"
  rFrames :: int
  wFrames :: int

definition copyFile :: "path \<Rightarrow> path \<Rightarrow> world \<Rightarrow> world" where
  \<comment> \<open>both exceptions are caught inside; opening the destination truncates it before the
      source is read\<close>
  "copyFile sourcePath destinationPath w =
     (case files w sourcePath of
        None \<Rightarrow> say_err ''Error copying file: Failed to open source file'' w
      | Some _ \<Rightarrow>
          if \<not> writable w destinationPath
          then say_err ''Error copying file: Failed to open destination file'' w
          else
            let w1 = w\<lparr>files := (files w)(destinationPath \<mapsto> [])\<rparr>;
                w2 = record_call (StreamCopy sourcePath destinationPath) w1
            in if write_fails w destinationPath then w2
               else (case files w1 sourcePath of
                       None \<Rightarrow> w2
                     | Some bs \<Rightarrow> w2\<lparr>files := (files w2)(destinationPath \<mapsto> bs)\<rparr>))"

definition convert :: "sound_lib \<Rightarrow> path \<Rightarrow> path \<Rightarrow> Converter \<times> world \<Rightarrow> Converter \<times> world" where
  "convert lib inPath outPath cw =
     (let (conv, w) = cw;
          w = record_call (EngineConvert inPath outPath) w;
          (inFile, w) = sf_open_read lib inPath w
      in case inFile of
           None \<Rightarrow> (conv, say_err ''Error opening the input file.'' w)
         | Some (inHandle, sfinfo) \<Rightarrow>
             let conv = conv\<lparr>subformat := format sfinfo AND SF_FORMAT_SUBMASK\<rparr>
             in if subformat conv = SF_FORMAT_PCM_16
                then
                  let w = say_out ''[!] File is already 16 bit. Copying instead..'' w;
                      w = copyFile inPath outPath w;
                      w = sf_close (Some inHandle) w
                  in (conv, w)
                else
                  let fArray = replicate (frames sfinfo * channels sfinfo) (0 :: sample);
                      ((n, fArray), w) =
                        sf_readf_double lib (Some inHandle) (channels sfinfo) fArray (frames sfinfo) w;
                      conv = conv\<lparr>rFrames := n\<rparr>;
                      w = sf_close (Some inHandle) w;
                      sfinfo = sfinfo\<lparr>samplerate := 48000\<rparr>;
                      sfinfo = sfinfo\<lparr>channels := 2\<rparr>;
                      sfinfo = sfinfo\<lparr>format := SF_FORMAT_WAV OR SF_FORMAT_PCM_16\<rparr>;
                      (outFile, w) = sf_open_write lib outPath sfinfo w;
                      w = record_call
                            (R8bResample (samplerate sfinfo) (samplerate sfinfo) (length fArray)) w;
                      fArray = overwrite
                                 (r8b_process lib (samplerate sfinfo) (samplerate sfinfo)
                                    (length fArray) fArray)
                                 fArray;
                      (m, w) = sf_write_double lib outFile fArray (length fArray) w;
                      conv = conv\<lparr>wFrames := m\<rparr>;
                      w = sf_close outFile w
                  in (conv, w))"

text \<open>
  \<open>convert\<close> above is \<open>Converter::convert\<close> as long as the construction of \<open>fArray\<close> at
  line 69 does not throw. The size handed to the constructor is the 64-bit product of the
  frame count and the channel count, converted to \<open>size_t\<close>: the constructor throws
  \<open>length_error\<close> above \<open>max_size()\<close>, and the allocation throws \<open>bad_alloc\<close> when there is
  no memory for the buffer. A product of \<open>2^64\<close> or more wraps, and if the wrapped size can be
  allocated, \<open>sf_readf_double\<close> writes past the end of the buffer. Nothing catches the
  exceptions, so \<open>std::terminate\<close> ends the process with the input still open.
\<close>

datatype fault = Length_error | Bad_alloc | Buffer_overrun | Filesystem_error fs_call

datatype outcome = Returned "Converter \<times> world" | Terminated fault world

definition vector_max_size :: nat where
  \<comment> \<open>\<open>std::vector<double>::max_size()\<close> with a 64-bit \<open>ptrdiff_t\<close>\<close>
  "vector_max_size = (2 ^ 63 - 1) div 8"

definition vector_request :: "SF_INFO \<Rightarrow> nat" where
  \<comment> \<open>\<open>sfinfo.frames * sfinfo.channels\<close> as the \<open>size_t\<close> the constructor receives\<close>
  "vector_request sfinfo = (frames sfinfo * channels sfinfo) mod 2 ^ 64"

definition convert_run :: "sound_lib \<Rightarrow> path \<Rightarrow> path \<Rightarrow> Converter \<times> world \<Rightarrow> outcome" where
  "convert_run lib inPath outPath cw =
     (let (conv, w) = cw
      in case sf_info_of lib w inPath of
           None \<Rightarrow> Returned (convert lib inPath outPath cw)
         | Some sfinfo \<Rightarrow>
             if format sfinfo AND SF_FORMAT_SUBMASK = SF_FORMAT_PCM_16
             then Returned (convert lib inPath outPath cw)
             else
               let w' = record_call (SfOpenRead inPath)
                          (record_call (EngineConvert inPath outPath) w)
               in if vector_max_size < vector_request sfinfo then Terminated Length_error w'
                  else if alloc_limit w < vector_request sfinfo then Terminated Bad_alloc w'
                  else if vector_request sfinfo < frames sfinfo * channels sfinfo
                  then Terminated Buffer_overrun w'
                  else Returned (convert lib inPath outPath cw))"

text \<open>
  Two values of the second branch of \<open>convert\<close>, named so that theorems can speak of them:
  the buffer after \<open>sf_readf_double\<close> and the buffer after the resampler has run.
\<close>

definition read_buffer :: "sound_lib \<Rightarrow> world \<Rightarrow> path \<Rightarrow> SF_INFO \<Rightarrow> sample list" where
  "read_buffer lib w inPath info =
     overwrite (take (frames info * channels info) (stream_of lib (Some (SndRead inPath)) w))
       (replicate (frames info * channels info) 0)"

definition resampled_buffer :: "sound_lib \<Rightarrow> world \<Rightarrow> path \<Rightarrow> SF_INFO \<Rightarrow> sample list" where
  "resampled_buffer lib w inPath info =
     overwrite (r8b_process lib 48000 48000 (frames info * channels info) (read_buffer lib w inPath info))
        (read_buffer lib w inPath info)"

section \<open>The batch walker (main.cpp)\<close>

text \<open>
  \<open>std::filesystem::relative(p, base)\<close> is
  \<open>weakly_canonical(p).lexically_relative(weakly_canonical(base))\<close>. On a file system without
  symbolic links the canonical form of a path is the list of its names below the root, made
  absolute with the current directory, with \<open>.\<close> dropped and \<open>..\<close> resolved. The result of
  \<open>lexically_relative\<close> is built from its names with \<open>operator/\<close>, and is \<open>.\<close> when there
  are none. \<open>relative\<close> below is the call for two paths that exist, as the two paths of
  \<open>processDirectory\<close> do (one was tested by \<open>main\<close>, the other has just been listed), on
  a file system without symbolic links, when it does not throw; that it can throw is part of
  \<open>dir_loop_run\<close>. With a symbolic link on the way the canonical forms, and so the result,
  are those of the link's target.

  What a directory iterator yields is a field of the world: the entries in the order of the
  iteration, each with its path and with what \<open>is_regular_file\<close> says of it. The integers of
  the progress line (\<open>int\<close> in the source) are natural numbers: a list of files is shorter
  than \<open>2^31\<close>. The local \<open>fileName\<close> of the loop is never used and is left out.
\<close>

fun split_on_sep :: "path \<Rightarrow> string list" where
  "split_on_sep [] = [[]]"
| "split_on_sep (c # cs) =
     (if is_sep c then [] # split_on_sep cs
      else (case split_on_sep cs of [] \<Rightarrow> [[c]] | x # xs \<Rightarrow> (c # x) # xs))"

definition names_of :: "path \<Rightarrow> string list" where
  "names_of p = filter (\<lambda>n. n \<noteq> []) (split_on_sep p)"

definition clean_name :: "string \<Rightarrow> bool" where
  \<comment> \<open>the name of a directory entry: not empty, no separator, neither \<open>.\<close> nor \<open>..\<close>\<close>
  "clean_name n = (n \<noteq> [] \<and> \<not> list_ex is_sep n \<and> n \<noteq> ''.'' \<and> n \<noteq> ''..'')"

fun normal_names :: "string list \<Rightarrow> string list \<Rightarrow> string list" where
  "normal_names acc [] = rev acc"
| "normal_names acc (n # ns) =
     (if n = ''.'' then normal_names acc ns
      else if n = ''..'' then normal_names (tl acc) ns
      else normal_names (n # acc) ns)"

definition absolute :: "world \<Rightarrow> path \<Rightarrow> path" where
  "absolute w p = (if is_absolute p then p else path_append (cwd w) p)"

definition weakly_canonical :: "world \<Rightarrow> path \<Rightarrow> string list" where
  "weakly_canonical w p = normal_names [] (names_of (absolute w p))"

fun lexically_relative :: "string list \<Rightarrow> string list \<Rightarrow> string list" where
  "lexically_relative (a # as) (b # bs) =
     (if a = b then lexically_relative as bs
      else replicate (length (b # bs)) ''..'' @ (a # as))"
| "lexically_relative as bs = replicate (length bs) ''..'' @ as"

definition relative :: "world \<Rightarrow> path \<Rightarrow> path \<Rightarrow> path" where
  "relative w p base =
     (let r = lexically_relative (weakly_canonical w p) (weakly_canonical w base)
      in if r = [] then ''.'' else foldl path_append [] r)"

fun to_string :: "nat \<Rightarrow> string" where
  "to_string n =
     (if n < 10 then [char_of (48 + n)]
      else to_string (n div 10) @ [char_of (48 + n mod 10)])"

declare to_string.simps [simp del]

fun getFilePaths :: "dir_entry list \<Rightarrow> string list \<Rightarrow> string list" where
  "getFilePaths [] filePaths = filePaths"
| "getFilePaths (entry # others) filePaths =
     (if entry_regular entry \<and> hasAllowedExtension (entry_path entry)
      then getFilePaths others (filePaths @ [entry_path entry])
      else getFilePaths others filePaths)"

definition getProgressStr :: "string \<Rightarrow> nat \<Rightarrow> nat \<Rightarrow> string" where
  "getProgressStr inPath currentPos listSize =
     ''Converting.. ['' @ to_string currentPos @ ''/'' @ to_string listSize @ ''].. '' @ inPath"

definition processFile :: "sound_lib \<Rightarrow> path \<Rightarrow> Converter \<times> world \<Rightarrow> Converter \<times> world" where
  "processFile lib filePath cw =
     (let outPath = getOutPath filePath
      in convert lib filePath outPath cw)"

definition processFileTo ::
    "sound_lib \<Rightarrow> path \<Rightarrow> path \<Rightarrow> Converter \<times> world \<Rightarrow> Converter \<times> world" where
  \<comment> \<open>the overload of \<open>processFile\<close> with an explicit output path\<close>
  "processFileTo lib filePath outFilePath cw = convert lib filePath outFilePath cw"

definition create_directory :: "path \<Rightarrow> world \<Rightarrow> world" where
  \<comment> \<open>the call when it does not throw; the throw is in \<open>processDirectory_run\<close>\<close>
  "create_directory p w = record_call (CreateDirectory p) w"

definition create_directories :: "path \<Rightarrow> world \<Rightarrow> world" where
  \<comment> \<open>the call when it does not throw; the throw is in \<open>dir_loop_run\<close>\<close>
  "create_directories p w = record_call (CreateDirectories p) w"

definition destination :: "world \<Rightarrow> path \<Rightarrow> path \<Rightarrow> path \<Rightarrow> path" where
  \<comment> \<open>the output path the loop of \<open>processDirectory\<close> builds for one file\<close>
  "destination w inPath convertedDir filePath =
     (let relativePath = relative w filePath inPath
      in path_append convertedDir relativePath)"

fun dir_loop ::
    "sound_lib \<Rightarrow> path \<Rightarrow> path \<Rightarrow> nat \<Rightarrow> string list \<Rightarrow> nat \<Rightarrow> Converter \<times> world
       \<Rightarrow> Converter \<times> world" where
  "dir_loop lib inPath convertedDir listSize [] fileCounter cw = cw"
| "dir_loop lib inPath convertedDir listSize (filePath # remaining) fileCounter cw =
     (let (conv, w) = cw;
          w = say_out (getProgressStr filePath fileCounter listSize) w;
          outFilePath = destination w inPath convertedDir filePath;
          w = create_directories (parent_path outFilePath) w;
          cw = processFileTo lib filePath outFilePath (conv, w)
      in dir_loop lib inPath convertedDir listSize remaining (fileCounter + 1) cw)"

definition before_convert :: "path \<Rightarrow> path \<Rightarrow> nat \<Rightarrow> nat \<Rightarrow> path \<Rightarrow> world \<Rightarrow> world" where
  \<comment> \<open>the world when the loop body reaches \<open>processFile\<close>: the progress line is printed
      and the parent directory of the output is created\<close>
  "before_convert inPath cd listSize k f w =
     create_directories (parent_path (destination w inPath cd f))
       (say_out (getProgressStr f k listSize) w)"

definition converted_dir :: "path \<Rightarrow> path" where
  "converted_dir inPath = path_append (parent_path inPath) (filename inPath @ ''-SPC'')"

definition file_list :: "world \<Rightarrow> path \<Rightarrow> bool \<Rightarrow> string list" where
  "file_list w inPath recurseMode =
     (if recurseMode then getFilePaths (recursive_directory_iterator w inPath) []
      else getFilePaths (directory_iterator w inPath) [])"

definition processDirectory ::
    "sound_lib \<Rightarrow> path \<Rightarrow> bool \<Rightarrow> Converter \<times> world \<Rightarrow> Converter \<times> world" where
  "processDirectory lib inPath recurseMode cw =
     (let (conv, w) = cw;
          fileList = file_list w inPath recurseMode;
          fileCounter = 1;
          convertedDir = converted_dir inPath;
          w = create_directory convertedDir w
      in dir_loop lib inPath convertedDir (length fileList) fileList fileCounter (conv, w))"

definition main :: "sound_lib \<Rightarrow> string \<Rightarrow> Converter \<times> world \<Rightarrow> Converter \<times> world" where
  \<comment> \<open>\<open>argv[1]\<close> is the input path; the two clock readings and the line that prints their
      difference are left out\<close>
  "main lib inPath cw =
     (let (spconverter, w) = cw;
          recurseMode = True
      in if status w inPath \<noteq> NotFound
         then if status w inPath = Regular \<and> hasAllowedExtension inPath
              then processFile lib inPath (spconverter, w)
              else if status w inPath = Directory
              then processDirectory lib inPath recurseMode (spconverter, w)
              else (spconverter,
                    say_out (inPath @ '' is neither a regular file nor a directory.'') w)
         else (spconverter, say_out (inPath @ '' does not exist.'') w))"

text \<open>
  The walker with its exceptions. The directory iteration, \<open>create_directory\<close>, \<open>relative\<close>
  and \<open>create_directories\<close> are called in the form that throws \<open>filesystem_error\<close>, and
  \<open>convert\<close> can throw from its allocation; \<open>processDirectory\<close> and \<open>main\<close> have no
  handler, so the first exception ends the process and the files that are left are never
  attempted.
\<close>

fun dir_loop_run ::
    "sound_lib \<Rightarrow> path \<Rightarrow> path \<Rightarrow> nat \<Rightarrow> string list \<Rightarrow> nat \<Rightarrow> Converter \<times> world
       \<Rightarrow> outcome" where
  "dir_loop_run lib inPath convertedDir listSize [] fileCounter cw = Returned cw"
| "dir_loop_run lib inPath convertedDir listSize (filePath # remaining) fileCounter cw =
     (let (conv, w) = cw;
          w = say_out (getProgressStr filePath fileCounter listSize) w
      in if fs_throws w (FsRelative filePath inPath)
         then Terminated (Filesystem_error (FsRelative filePath inPath)) w
         else
           let outFilePath = destination w inPath convertedDir filePath
           in if fs_throws w (FsCreateDirectories (parent_path outFilePath))
              then Terminated (Filesystem_error (FsCreateDirectories (parent_path outFilePath))) w
              else
                let w = create_directories (parent_path outFilePath) w
                in case convert_run lib filePath outFilePath (conv, w) of
                     Returned cw' \<Rightarrow>
                       dir_loop_run lib inPath convertedDir listSize remaining (fileCounter + 1) cw'
                   | Terminated f w' \<Rightarrow> Terminated f w')"

definition processDirectory_run ::
    "sound_lib \<Rightarrow> path \<Rightarrow> bool \<Rightarrow> Converter \<times> world \<Rightarrow> outcome" where
  "processDirectory_run lib inPath recurseMode cw =
     (let (conv, w) = cw
      in if fs_throws w (FsIterate inPath) then Terminated (Filesystem_error (FsIterate inPath)) w
         else
           let fileList = file_list w inPath recurseMode;
               fileCounter = 1;
               convertedDir = converted_dir inPath
           in if fs_throws w (FsCreateDirectory convertedDir)
              then Terminated (Filesystem_error (FsCreateDirectory convertedDir)) w
              else
                let w = create_directory convertedDir w
                in dir_loop_run lib inPath convertedDir (length fileList) fileList fileCounter
                     (conv, w))"

definition main_run :: "sound_lib \<Rightarrow> string \<Rightarrow> Converter \<times> world \<Rightarrow> outcome" where
  "main_run lib inPath cw =
     (let (spconverter, w) = cw;
          recurseMode = True
      in if status w inPath \<noteq> NotFound
         then if status w inPath = Regular \<and> hasAllowedExtension inPath
              then convert_run lib inPath (getOutPath inPath) (spconverter, w)
              else if status w inPath = Directory
              then processDirectory_run lib inPath recurseMode (spconverter, w)
              else Returned (main lib inPath cw)
         else Returned (main lib inPath cw))"

fun final_world :: "outcome \<Rightarrow> world" where
  "final_world (Returned cw) = snd cw"
| "final_world (Terminated f w) = w"

fun ending :: "outcome \<Rightarrow> fault option" where
  "ending (Returned cw) = None"
| "ending (Terminated f w) = Some f"

section \<open>Reading the record of calls\<close>

fun engine_call :: "call \<Rightarrow> (path \<times> path) list" where
  "engine_call (EngineConvert src dst) = [(src, dst)]"
| "engine_call _ = []"

definition engine_calls :: "call list \<Rightarrow> (path \<times> path) list" where
  \<comment> \<open>the conversion attempts in a record of calls: source and destination, in order\<close>
  "engine_calls cs = concat (map engine_call cs)"

fun closed_input :: "call \<Rightarrow> path list" where
  "closed_input (SfClose (Some (SndRead p))) = [p]"
| "closed_input _ = []"

definition closed_inputs :: "call list \<Rightarrow> path list" where
  \<comment> \<open>the inputs that were opened and closed again: the attempts that got past inspection\<close>
  "closed_inputs cs = concat (map closed_input cs)"

fun open_write_call :: "call \<Rightarrow> (path \<times> SF_INFO) list" where
  "open_write_call (SfOpenWrite p info) = [(p, info)]"
| "open_write_call _ = []"

definition open_write_calls :: "call list \<Rightarrow> (path \<times> SF_INFO) list" where
  \<comment> \<open>the descriptors handed to \<open>sf_open(_, SFM_WRITE, _)\<close>\<close>
  "open_write_calls cs = concat (map open_write_call cs)"

fun resample_call :: "call \<Rightarrow> (int \<times> int \<times> nat) list" where
  "resample_call (R8bResample src dst len) = [(src, dst, len)]"
| "resample_call _ = []"

definition resample_calls :: "call list \<Rightarrow> (int \<times> int \<times> nat) list" where
  \<comment> \<open>source rate, destination rate and length of every resampler invocation\<close>
  "resample_calls cs = concat (map resample_call cs)"

fun write_call :: "call \<Rightarrow> nat list" where
  "write_call (SfWriteDouble h items) = [items]"
| "write_call _ = []"

definition write_calls :: "call list \<Rightarrow> nat list" where
  \<comment> \<open>the item counts handed to \<open>sf_write_double\<close>\<close>
  "write_calls cs = concat (map write_call cs)"

fun decode_call :: "call \<Rightarrow> bool" where
  "decode_call (SfReadfDouble h n) = True"
| "decode_call (R8bResample src dst len) = True"
| "decode_call (SfOpenWrite p info) = True"
| "decode_call (SfWriteDouble h items) = True"
| "decode_call _ = False"

definition open_errors :: "string list \<Rightarrow> nat" where
  \<comment> \<open>how many times the engine reported that it could not open its input\<close>
  "open_errors ls = length (filter (\<lambda>l. l = ''Error opening the input file.'') ls)"

section \<open>A small world to run the program in\<close>

text \<open>
  A library that recognises six byte strings: \<open>[1]\<close> is a mono 32-bit float WAV file at
  44100 Hz with four frames, \<open>[2]\<close> a mono 16-bit PCM WAV file at 96000 Hz with two frames,
  \<open>[3]\<close> a six-channel 24-bit PCM WAV file at 48000 Hz with one frame, \<open>[4]\<close> a mono float
  file with three frames, \<open>[5]\<close> a mono float file whose header declares four frames and
  whose data ends after two, \<open>[6]\<close> a stereo float file of \<open>2^36\<close> frames, some 200 hours.
  As libsndfile does, it writes whole frames only: a count that is not a multiple of the
  channel count is refused. Its resampler leaves the buffer as it is. The world can allocate
  buffers of up to \<open>2^30\<close> samples, and no file system call throws in it.
\<close>

definition demo_float :: SF_INFO where
  "demo_float = \<lparr>frames = 4, samplerate = 44100, channels = 1, format = 0x010006\<rparr>"

definition demo_pcm16 :: SF_INFO where
  "demo_pcm16 = \<lparr>frames = 2, samplerate = 96000, channels = 1, format = 0x010002\<rparr>"

definition demo_surround :: SF_INFO where
  "demo_surround = \<lparr>frames = 1, samplerate = 48000, channels = 6, format = 0x010003\<rparr>"

definition demo_odd :: SF_INFO where
  "demo_odd = \<lparr>frames = 3, samplerate = 44100, channels = 1, format = 0x010006\<rparr>"

definition demo_short :: SF_INFO where
  "demo_short = \<lparr>frames = 4, samplerate = 44100, channels = 1, format = 0x010006\<rparr>"

definition demo_long :: SF_INFO where
  "demo_long = \<lparr>frames = 2 ^ 36, samplerate = 44100, channels = 2, format = 0x010006\<rparr>"

definition demo_lib :: sound_lib where
  "demo_lib =
     \<lparr>sf_decode = (\<lambda>bs. if bs = [1] then Some (demo_float, [1/2, 1/4, 1, 0])
                        else if bs = [2] then Some (demo_pcm16, [1, 0])
                        else if bs = [3] then Some (demo_surround, [1, 1, 1, 1, 1, 1])
                        else if bs = [4] then Some (demo_odd, [1/2, 1/4, 1])
                        else if bs = [5] then Some (demo_short, [1/2, 1/4])
                        else if bs = [6] then Some (demo_long, [])
                        else None),
      sf_encode = (\<lambda>info xs. [of_nat (channels info), of_nat (length xs)]),
      sf_write_items = (\<lambda>info items. if items mod channels info = 0 then items else 0),
      r8b_process = (\<lambda>src dst maxLen xs. xs)\<rparr>"

definition demo_world :: world where
  "demo_world =
     \<lparr>files = [''music/a.wav'' \<mapsto> [1], ''music/x/b.wav'' \<mapsto> [2], ''music/bad.mp3'' \<mapsto> [0],
               ''film/six.wav'' \<mapsto> [3], ''solo/odd.wav'' \<mapsto> [4], ''solo/cut.wav'' \<mapsto> [5],
               ''tapes/one.wav'' \<mapsto> [1], ''tapes/long.wav'' \<mapsto> [6], ''tapes/two.wav'' \<mapsto> [1]],
      writable = (\<lambda>p. p \<noteq> ''locked/out.wav''),
      write_fails = (\<lambda>p. p = ''full/out.wav''),
      status = (\<lambda>p. if p = ''music'' \<or> p = ''music/'' \<or> p = ''tapes'' then Directory
                      else if p = ''music/a.wav'' then Regular else NotFound),
      directory_iterator = (\<lambda>p. []),
      recursive_directory_iterator =
        (\<lambda>p. map (\<lambda>n. \<lparr>entry_path = path_append p n, entry_regular = (n \<noteq> ''x'')\<rparr>)
                 (if p = ''tapes'' then [''one.wav'', ''long.wav'', ''two.wav'']
                  else [''a.wav'', ''notes.txt'', ''bad.mp3'', ''x'', ''x/b.wav'', ''song.MP3''])),
      cwd = ''/home'',
      alloc_limit = 2 ^ 30,
      fs_throws = (\<lambda>c. False),
      cout = [], cerr = [], calls = []\<rparr>"

definition demo_converter :: Converter where
  "demo_converter = \<lparr>subformat = 0, rFrames = 0, wFrames = 0\<rparr>"

section \<open>Paths: decomposition and \<open>getOutPath\<close>\<close>

lemma filename_no_sep: "c \<in> set (filename p) \<Longrightarrow> \<not> is_sep c"
  by (auto simp: filename_def dest: set_takeWhileD)

lemma dir_part_filename: "dir_part p @ filename p = p"
proof -
  have "rev (takeWhile (\<lambda>c. \<not> is_sep c) (rev p) @ dropWhile (\<lambda>c. \<not> is_sep c) (rev p)) = p"
    by simp
  then show ?thesis by (simp add: dir_part_def filename_def del: takeWhile_dropWhile_id)
qed

lemma filename_append_name:
  assumes "\<And>c. c \<in> set f \<Longrightarrow> \<not> is_sep c" and "filename d = []"
  shows "filename (d @ f) = f" and "dir_part (d @ f) = d"
proof -
  have P: "\<And>x. x \<in> set (rev f) \<Longrightarrow> \<not> is_sep x" using assms(1) by simp
  have t: "takeWhile (\<lambda>c. \<not> is_sep c) (rev d) = []" using assms(2) by (simp add: filename_def)
  show "filename (d @ f) = f"
    using takeWhile_append2 [of "rev f" "\<lambda>c. \<not> is_sep c" "rev d"] P t by (simp add: filename_def)
  have "dir_part d = d" using dir_part_filename [of d] assms(2) by simp
  moreover have "dir_part (d @ f) = dir_part d"
    using dropWhile_append2 [of "rev f" "\<lambda>c. \<not> is_sep c" "rev d"] P by (simp add: dir_part_def)
  ultimately show "dir_part (d @ f) = d" by simp
qed

lemma filename_sep_end [simp]: "filename (d @ ''/'') = []"
  by (simp add: filename_def is_sep_def)

lemma stem_extension: "stem p @ extension p = filename p"
proof -
  let ?f = "filename p"
  let ?P = "\<lambda>c. c \<noteq> CHR ''.''"
  have "length (extension p) \<le> length ?f \<and> extension p = drop (length ?f - length (extension p)) ?f"
  proof (cases "extension p = []")
    case True then show ?thesis by simp
  next
    case False
    then have dot: "CHR ''.'' \<in> set ?f" and e: "extension p = CHR ''.'' # rev (takeWhile ?P (rev ?f))"
      by (auto simp: extension_def Let_def split: if_splits)
    have ne: "dropWhile ?P (rev ?f) \<noteq> []" using dot by (simp add: dropWhile_eq_Nil_conv)
    then have hd: "hd (dropWhile ?P (rev ?f)) = CHR ''.''" using hd_dropWhile [of ?P "rev ?f"] by simp
    then obtain ys where ys: "dropWhile ?P (rev ?f) = CHR ''.'' # ys" using ne by (cases "dropWhile ?P (rev ?f)") auto
    have "rev ?f = takeWhile ?P (rev ?f) @ CHR ''.'' # ys" using ys takeWhile_dropWhile_id [of ?P "rev ?f"] by simp
    then have "?f = rev ys @ CHR ''.'' # rev (takeWhile ?P (rev ?f))"
      by (metis rev_append rev.simps(2) rev_rev_ident append.assoc append_Cons append_Nil)
    then have "?f = rev ys @ extension p" using e by simp
    then show ?thesis by (metis append_eq_conv_conj length_append le_add2 add_diff_cancel_right')
  qed
  then show ?thesis by (simp add: stem_def) (metis append_take_drop_id)
qed

lemma stem_no_sep: "c \<in> set (stem p) \<Longrightarrow> \<not> is_sep c"
  using filename_no_sep [of c p] stem_extension [of p] by (metis Un_iff set_append)

lemma extension_no_sep: "c \<in> set (extension p) \<Longrightarrow> \<not> is_sep c"
  using filename_no_sep [of c p] stem_extension [of p] by (metis Un_iff set_append)

lemma strip_seps_Nil: "strip_seps d = [] \<Longrightarrow> filename d = []"
  by (cases "rev d") (auto simp: strip_seps_def filename_def split: if_splits)

lemma strip_seps_not_Nil:
  assumes "strip_seps x \<noteq> []"
  shows "filename (strip_seps x) \<noteq> []" and "strip_seps (strip_seps x @ ''/'') = strip_seps x"
proof -
  let ?r = "dropWhile is_sep (rev x)"
  have ne: "?r \<noteq> []" using assms by (simp add: strip_seps_def)
  then have "\<not> is_sep (hd ?r)" using hd_dropWhile [of is_sep "rev x"] by simp
  then obtain c cs where r: "?r = c # cs" and c: "\<not> is_sep c" using ne by (cases ?r) auto
  show "filename (strip_seps x) \<noteq> []" using r c by (simp add: filename_def strip_seps_def)
  show "strip_seps (strip_seps x @ ''/'') = strip_seps x"
    using r c by (simp add: strip_seps_def is_sep_def)
qed

lemma out_name_no_sep: "c \<in> set (stem p @ ''-SPC'' @ extension p) \<Longrightarrow> \<not> is_sep c"
  using stem_no_sep [of c p] extension_no_sep [of c p] by (auto simp: is_sep_def)

lemma out_name_relative: "\<not> is_absolute (stem p @ ''-SPC'' @ extension p)"
proof (cases "stem p")
  case Nil then show ?thesis by (simp add: is_absolute_def is_sep_def)
next
  case (Cons c cs)
  then have "\<not> is_sep c" using stem_no_sep [of c p] by simp
  then show ?thesis using Cons by (simp add: is_absolute_def)
qed

lemma parent_path_append_name:
  assumes "\<And>c. c \<in> set f \<Longrightarrow> \<not> is_sep c" and "\<not> is_absolute f"
  shows "parent_path (path_append (parent_path p) f) = parent_path p"
    and "filename (path_append (parent_path p) f) = f"
proof -
  let ?pre = "dir_part p"
  show "parent_path (path_append (parent_path p) f) = parent_path p"
  proof (cases "strip_seps ?pre = []")
    case True
    then have d: "parent_path p = ?pre" by (simp add: parent_path_def Let_def)
    have fn: "filename ?pre = []" using True by (rule strip_seps_Nil)
    then have "path_append ?pre f = ?pre @ f" using assms(2) by (simp add: path_append_def)
    moreover have "dir_part (?pre @ f) = ?pre" using assms(1) fn by (rule filename_append_name)
    ultimately show ?thesis using d True by (simp add: parent_path_def Let_def)
  next
    case False
    then have d: "parent_path p = strip_seps ?pre" by (simp add: parent_path_def Let_def)
    let ?d = "strip_seps ?pre"
    have "filename ?d \<noteq> []" using False by (rule strip_seps_not_Nil)
    then have pa: "path_append ?d f = (?d @ ''/'') @ f" using assms(2) by (simp add: path_append_def)
    have "dir_part ((?d @ ''/'') @ f) = ?d @ ''/''"
      using assms(1) filename_sep_end by (rule filename_append_name)
    moreover have "strip_seps (?d @ ''/'') = ?d" using False by (rule strip_seps_not_Nil)
    ultimately show ?thesis using d pa False by (simp add: parent_path_def Let_def)
  qed
  show "filename (path_append (parent_path p) f) = f"
  proof (cases "filename (parent_path p) = []")
    case True
    then show ?thesis using assms filename_append_name(1) [of f "parent_path p"]
      by (simp add: path_append_def)
  next
    case False
    then show ?thesis using assms filename_append_name(1) [of f "parent_path p @ ''/''"] filename_sep_end
      by (simp add: path_append_def)
  qed
qed

lemma getOutPath_ok:
  "parent_path (getOutPath p) = parent_path p \<and>
   filename (getOutPath p) = stem p @ ''-SPC'' @ extension p \<and>
   stem p @ extension p = filename p \<and>
   getOutPath ''track.flac'' = ''track-SPC.flac'' \<and> getOutPath ''/music/a.b/track.flac'' = ''/music/a.b/track-SPC.flac''"
proof -
  have 1: "parent_path (getOutPath p) = parent_path p"
    unfolding getOutPath_def Let_def using out_name_no_sep out_name_relative by (rule parent_path_append_name)
  have 2: "filename (getOutPath p) = stem p @ ''-SPC'' @ extension p"
    unfolding getOutPath_def Let_def using out_name_no_sep out_name_relative by (rule parent_path_append_name)
  have 3: "getOutPath ''track.flac'' = ''track-SPC.flac''"
    by (simp add: getOutPath_def parent_path_def dir_part_def strip_seps_def stem_def extension_def
          filename_def path_append_def is_absolute_def is_sep_def Let_def)
  have 4: "getOutPath ''/music/a.b/track.flac'' = ''/music/a.b/track-SPC.flac''"
    by (simp add: getOutPath_def parent_path_def dir_part_def strip_seps_def stem_def extension_def
          filename_def path_append_def is_absolute_def is_sep_def Let_def)
  show ?thesis using 1 2 3 4 stem_extension by simp
qed

section \<open>The three ways through \<open>convert\<close>\<close>

lemmas prim_defs = sf_open_write_def sf_readf_double_def sf_write_double_def
  sf_close_def record_call_def say_out_def say_err_def

lemma length_overwrite [simp]: "length (overwrite new old) = length old"
  by (simp add: overwrite_def)

lemma sf_info_of_record_call [simp]: "sf_info_of lib (record_call c w) p = sf_info_of lib w p"
  by (simp add: sf_info_of_def record_call_def)

lemma open_read_None:
  "sf_info_of lib w p = None \<Longrightarrow> sf_open_read lib p w = (None, record_call (SfOpenRead p) w)"
  by (simp add: sf_open_read_def Let_def)

lemma open_read_Some:
  "sf_info_of lib w p = Some info \<Longrightarrow>
     sf_open_read lib p w = (Some (SndRead p, info), record_call (SfOpenRead p) w)"
  by (simp add: sf_open_read_def Let_def)

lemma convert_open_failed:
  assumes "sf_info_of lib w inPath = None"
  shows "convert lib inPath outPath (conv, w) =
           (conv, w\<lparr>calls := calls w @ [EngineConvert inPath outPath, SfOpenRead inPath],
                    cerr := cerr w @ [''Error opening the input file.'']\<rparr>)"
proof -
  have "sf_info_of lib (record_call (EngineConvert inPath outPath) w) inPath = None"
    using assms by simp
  then show ?thesis
    by (simp add: convert_def open_read_None Let_def record_call_def say_err_def)
qed

lemma target_format:
  "(SF_FORMAT_WAV OR SF_FORMAT_PCM_16) AND SF_FORMAT_SUBMASK = SF_FORMAT_PCM_16"
  "(SF_FORMAT_WAV OR SF_FORMAT_PCM_16) AND SF_FORMAT_TYPEMASK = SF_FORMAT_WAV"
  by (simp_all add: SF_FORMAT_WAV_def SF_FORMAT_PCM_16_def SF_FORMAT_SUBMASK_def SF_FORMAT_TYPEMASK_def)

lemma convert_copy_eq:
  assumes "sf_info_of lib w inPath = Some info"
      and "format info AND SF_FORMAT_SUBMASK = SF_FORMAT_PCM_16"
  shows "convert lib inPath outPath (conv, w) =
           (conv\<lparr>subformat := SF_FORMAT_PCM_16\<rparr>,
            sf_close (Some (SndRead inPath))
              (copyFile inPath outPath
                 (say_out ''[!] File is already 16 bit. Copying instead..''
                    (record_call (SfOpenRead inPath)
                       (record_call (EngineConvert inPath outPath) w)))))"
proof -
  have "sf_info_of lib (record_call (EngineConvert inPath outPath) w) inPath = Some info"
    using assms(1) by simp
  then show ?thesis using assms(2)
    by (simp add: convert_def open_read_Some Let_def)
qed

lemma length_read_buffer [simp]:
  "length (read_buffer lib w p info) = frames info * channels info"
  by (simp add: read_buffer_def)

lemma length_resampled_buffer [simp]:
  "length (resampled_buffer lib w p info) = frames info * channels info"
  by (simp add: resampled_buffer_def)

lemma stream_of_calls [simp]: "stream_of lib h (w\<lparr>calls := cs\<rparr>) = stream_of lib h w"
  by (simp add: stream_of_def split: option.splits SNDFILE.splits)

lemma convert_resample_eq:
  assumes "sf_info_of lib w inPath = Some info"
      and "format info AND SF_FORMAT_SUBMASK \<noteq> SF_FORMAT_PCM_16"
  shows "convert lib inPath outPath (conv, w) =
           (let target = info\<lparr>samplerate := 48000, channels := 2,
                               format := SF_FORMAT_WAV OR SF_FORMAT_PCM_16\<rparr>;
                outFile = (if writable w outPath then Some (SndWrite outPath target) else None);
                n = frames info * channels info;
                buf = resampled_buffer lib w inPath info
            in (conv\<lparr>subformat := format info AND SF_FORMAT_SUBMASK,
                     rFrames := (if channels info = 0 then 0
                                 else int (length (take n (stream_of lib (Some (SndRead inPath)) w))
                                        div channels info)),
                     wFrames := (if writable w outPath \<and> \<not> write_fails w outPath
                                 then int (sf_write_items lib target n) else 0)\<rparr>,
                w\<lparr>calls := calls w @
                     [EngineConvert inPath outPath, SfOpenRead inPath,
                      SfReadfDouble (Some (SndRead inPath)) (frames info),
                      SfClose (Some (SndRead inPath)),
                      SfOpenWrite outPath target,
                      R8bResample 48000 48000 n,
                      SfWriteDouble outFile n,
                      SfClose outFile],
                   files := (if \<not> writable w outPath then files w
                             else if write_fails w outPath
                             then (files w)(outPath \<mapsto> sf_encode lib target [])
                             else (files w)(outPath \<mapsto>
                                    sf_encode lib target (take (sf_write_items lib target n) buf)))\<rparr>))"
proof -
  have "sf_info_of lib (record_call (EngineConvert inPath outPath) w) inPath = Some info"
    using assms(1) by simp
  then show ?thesis using assms(2)
    by (simp add: convert_def open_read_Some Let_def case_prod_beta prim_defs
          read_buffer_def resampled_buffer_def)
qed

lemma engine_calls_append [simp]: "engine_calls (xs @ ys) = engine_calls xs @ engine_calls ys"
  by (simp add: engine_calls_def)

lemma engine_calls_Nil [simp]: "engine_calls [] = []"
  by (simp add: engine_calls_def)

lemma engine_calls_Cons [simp]: "engine_calls (c # cs) = engine_call c @ engine_calls cs"
  by (simp add: engine_calls_def)

lemma open_errors_append [simp]: "open_errors (xs @ ys) = open_errors xs + open_errors ys"
  by (simp add: open_errors_def)

lemma copyFile_frame:
  "cwd (copyFile s d w) = cwd w" "writable (copyFile s d w) = writable w"
  "write_fails (copyFile s d w) = write_fails w" "cout (copyFile s d w) = cout w"
  "engine_calls (calls (copyFile s d w)) = engine_calls (calls w)"
  "open_errors (cerr (copyFile s d w)) = open_errors (cerr w)"
  "p \<noteq> d \<Longrightarrow> files (copyFile s d w) p = files w p"
  by (simp_all add: copyFile_def say_err_def record_call_def Let_def open_errors_def
        split: option.splits)

lemma convert_cases:
  obtains (failed) "sf_info_of lib w inPath = None"
  | (copied) info where "sf_info_of lib w inPath = Some info"
      "format info AND SF_FORMAT_SUBMASK = SF_FORMAT_PCM_16"
  | (resampled) info where "sf_info_of lib w inPath = Some info"
      "format info AND SF_FORMAT_SUBMASK \<noteq> SF_FORMAT_PCM_16"
  by (cases "sf_info_of lib w inPath") auto

lemma convert_frame:
  "cwd (snd (convert lib inPath outPath (conv, w))) = cwd w"
  "writable (snd (convert lib inPath outPath (conv, w))) = writable w"
  "write_fails (snd (convert lib inPath outPath (conv, w))) = write_fails w"
proof -
  show "cwd (snd (convert lib inPath outPath (conv, w))) = cwd w"
  proof (cases rule: convert_cases [of lib w inPath])
    case failed then show ?thesis by (simp add: convert_open_failed)
  next
    case (copied info) then show ?thesis
      by (simp add: convert_copy_eq copyFile_frame sf_close_def record_call_def say_out_def)
  next
    case (resampled info) then show ?thesis by (simp add: convert_resample_eq Let_def)
  qed
  show "writable (snd (convert lib inPath outPath (conv, w))) = writable w"
  proof (cases rule: convert_cases [of lib w inPath])
    case failed then show ?thesis by (simp add: convert_open_failed)
  next
    case (copied info) then show ?thesis
      by (simp add: convert_copy_eq copyFile_frame sf_close_def record_call_def say_out_def)
  next
    case (resampled info) then show ?thesis by (simp add: convert_resample_eq Let_def)
  qed
  show "write_fails (snd (convert lib inPath outPath (conv, w))) = write_fails w"
  proof (cases rule: convert_cases [of lib w inPath])
    case failed then show ?thesis by (simp add: convert_open_failed)
  next
    case (copied info) then show ?thesis
      by (simp add: convert_copy_eq copyFile_frame sf_close_def record_call_def say_out_def)
  next
    case (resampled info) then show ?thesis by (simp add: convert_resample_eq Let_def)
  qed
qed

lemma convert_engine_calls:
  "engine_calls (calls (snd (convert lib inPath outPath (conv, w)))) =
     engine_calls (calls w) @ [(inPath, outPath)]"
proof (cases rule: convert_cases [of lib w inPath])
  case failed then show ?thesis by (simp add: convert_open_failed)
next
  case (copied info) then show ?thesis
    by (simp add: convert_copy_eq copyFile_frame sf_close_def record_call_def say_out_def)
next
  case (resampled info) then show ?thesis by (simp add: convert_resample_eq Let_def)
qed

lemma convert_files_other:
  assumes "p \<noteq> outPath"
  shows "files (snd (convert lib inPath outPath (conv, w))) p = files w p"
proof (cases rule: convert_cases [of lib w inPath])
  case failed then show ?thesis by (simp add: convert_open_failed)
next
  case (copied info) then show ?thesis using assms
    by (simp add: convert_copy_eq copyFile_frame sf_close_def record_call_def say_out_def)
next
  case (resampled info) then show ?thesis using assms by (simp add: convert_resample_eq Let_def)
qed

lemma convert_open_errors:
  "open_errors (cerr (snd (convert lib inPath outPath (conv, w)))) =
     open_errors (cerr w) + (if sf_info_of lib w inPath = None then 1 else 0)"
proof (cases rule: convert_cases [of lib w inPath])
  case failed then show ?thesis by (simp add: convert_open_failed open_errors_def)
next
  case (copied info) then show ?thesis
    by (simp add: convert_copy_eq copyFile_frame sf_close_def record_call_def say_out_def)
next
  case (resampled info) then show ?thesis by (simp add: convert_resample_eq Let_def)
qed

section \<open>The loop of \<open>processDirectory\<close>\<close>

lemma closed_inputs_simps [simp]:
  "closed_inputs (xs @ ys) = closed_inputs xs @ closed_inputs ys"
  "closed_inputs [] = []"
  "closed_inputs (c # cs) = closed_input c @ closed_inputs cs"
  by (simp_all add: closed_inputs_def)

lemma copyFile_closed_inputs: "closed_inputs (calls (copyFile s d w)) = closed_inputs (calls w)"
  by (simp add: copyFile_def say_err_def record_call_def Let_def split: option.splits)

lemma convert_closed_inputs:
  "closed_inputs (calls (snd (convert lib inPath outPath (conv, w)))) =
     closed_inputs (calls w) @ (if sf_info_of lib w inPath = None then [] else [inPath])"
proof (cases rule: convert_cases [of lib w inPath])
  case failed then show ?thesis by (simp add: convert_open_failed)
next
  case (copied info) then show ?thesis
    by (simp add: convert_copy_eq copyFile_closed_inputs sf_close_def record_call_def say_out_def)
next
  case (resampled info) then show ?thesis by (simp add: convert_resample_eq Let_def)
qed

lemma destination_cwd: "cwd w' = cwd w \<Longrightarrow> destination w' i d f = destination w i d f"
  by (simp add: destination_def relative_def weakly_canonical_def absolute_def)

lemma sf_info_of_files: "files w' p = files w p \<Longrightarrow> sf_info_of lib w' p = sf_info_of lib w p"
  by (simp add: sf_info_of_def)

lemma before_convert_frame:
  "cwd (before_convert i d n k f w) = cwd w"
  "files (before_convert i d n k f w) = files w"
  "cerr (before_convert i d n k f w) = cerr w"
  "engine_calls (calls (before_convert i d n k f w)) = engine_calls (calls w)"
  "closed_inputs (calls (before_convert i d n k f w)) = closed_inputs (calls w)"
  by (simp_all add: before_convert_def create_directories_def say_out_def record_call_def)

lemma dir_loop_step:
  "dir_loop lib inPath cd n (f # fs) k (conv, w) =
     dir_loop lib inPath cd n fs (k + 1)
       (convert lib f (destination w inPath cd f) (conv, before_convert inPath cd n k f w))"
proof -
  have "destination (say_out (getProgressStr f k n) w) inPath cd f = destination w inPath cd f"
    by (rule destination_cwd) (simp add: say_out_def)
  then show ?thesis by (simp add: Let_def processFileTo_def before_convert_def)
qed

declare dir_loop.simps(2) [simp del]

lemma dir_loop_engine_calls:
  "engine_calls (calls (snd (dir_loop lib inPath cd n fs k (conv, w)))) =
     engine_calls (calls w) @ map (\<lambda>f. (f, destination w inPath cd f)) fs"
proof (induction fs arbitrary: conv w k)
  case Nil
  show ?case by simp
next
  case (Cons f fs)
  let ?w1 = "before_convert inPath cd n k f w"
  obtain conv' w' where r: "convert lib f (destination w inPath cd f) (conv, ?w1) = (conv', w')"
    by (cases "convert lib f (destination w inPath cd f) (conv, ?w1)")
  have w': "w' = snd (convert lib f (destination w inPath cd f) (conv, ?w1))" using r by simp
  have cwd': "cwd w' = cwd w" unfolding w' by (simp add: convert_frame before_convert_frame)
  have e: "engine_calls (calls w') = engine_calls (calls w) @ [(f, destination w inPath cd f)]"
    unfolding w' by (simp add: convert_engine_calls before_convert_frame)
  have d: "(\<lambda>g. (g, destination w' inPath cd g)) = (\<lambda>g. (g, destination w inPath cd g))"
    using destination_cwd [OF cwd'] by simp
  show ?case
    unfolding dir_loop_step r using Cons.IH [where conv = conv' and w = w' and k = "k + 1"] e d by simp
qed

lemma dir_loop_outcomes:
  assumes "\<forall>f \<in> set fs. destination w inPath cd f \<notin> set fs"
  shows "open_errors (cerr (snd (dir_loop lib inPath cd n fs k (conv, w)))) =
           open_errors (cerr w) + length (filter (\<lambda>f. sf_info_of lib w f = None) fs) \<and>
         closed_inputs (calls (snd (dir_loop lib inPath cd n fs k (conv, w)))) =
           closed_inputs (calls w) @ filter (\<lambda>f. sf_info_of lib w f \<noteq> None) fs"
  using assms
proof (induction fs arbitrary: conv w k)
  case Nil
  show ?case by simp
next
  case (Cons f fs)
  let ?w1 = "before_convert inPath cd n k f w"
  let ?out = "destination w inPath cd f"
  obtain conv' w' where r: "convert lib f ?out (conv, ?w1) = (conv', w')"
    by (cases "convert lib f ?out (conv, ?w1)")
  have w': "w' = snd (convert lib f ?out (conv, ?w1))" using r by simp
  have cwd': "cwd w' = cwd w" unfolding w' by (simp add: convert_frame before_convert_frame)
  have same: "sf_info_of lib w' g = sf_info_of lib w g" if "g \<in> set fs" for g
  proof -
    have "g \<noteq> ?out" using Cons.prems that by auto
    then have "files w' g = files w g"
      unfolding w' by (simp add: convert_files_other before_convert_frame)
    then show ?thesis by (rule sf_info_of_files)
  qed
  have info1: "sf_info_of lib ?w1 f = sf_info_of lib w f"
    by (rule sf_info_of_files) (simp add: before_convert_frame)
  have e: "open_errors (cerr w') = open_errors (cerr w) + (if sf_info_of lib w f = None then 1 else 0)"
    unfolding w' by (simp add: convert_open_errors before_convert_frame info1)
  have c: "closed_inputs (calls w') =
             closed_inputs (calls w) @ (if sf_info_of lib w f = None then [] else [f])"
    unfolding w' by (simp add: convert_closed_inputs before_convert_frame info1)
  have prem: "\<forall>g \<in> set fs. destination w' inPath cd g \<notin> set fs"
    using Cons.prems destination_cwd [OF cwd'] by simp
  have f1: "filter (\<lambda>g. sf_info_of lib w' g = None) fs = filter (\<lambda>g. sf_info_of lib w g = None) fs"
    by (rule filter_cong) (simp_all add: same)
  have f2: "filter (\<lambda>g. sf_info_of lib w' g \<noteq> None) fs = filter (\<lambda>g. sf_info_of lib w g \<noteq> None) fs"
    by (rule filter_cong) (simp_all add: same)
  show ?case
    unfolding dir_loop_step r using Cons.IH [where conv = conv' and w = w' and k = "k + 1", OF prem] e c f1 f2 by simp
qed

lemma ext_loop_set: "ext_loop e xs = (e \<in> set xs)"
  by (induction xs) auto

lemma hasAllowedExtension_iff:
  "hasAllowedExtension p = (extension p \<in> {''.wav'', ''.flac'', ''.ogg'', ''.mp3''})"
  by (simp add: hasAllowedExtension_def ext_loop_set allowedExtensions_def)

lemma getFilePaths_filter:
  "getFilePaths es acc =
     acc @ map entry_path (filter (\<lambda>e. entry_regular e \<and> hasAllowedExtension (entry_path e)) es)"
  by (induction es arbitrary: acc) simp_all

lemma processDirectory_eq:
  "processDirectory lib inPath r (conv, w) =
     dir_loop lib inPath (converted_dir inPath) (length (file_list w inPath r)) (file_list w inPath r) 1
       (conv, create_directory (converted_dir inPath) w)"
  by (simp add: processDirectory_def Let_def)

lemma main_single_file:
  "status w inPath = Regular \<Longrightarrow> hasAllowedExtension inPath \<Longrightarrow>
     main lib inPath (conv, w) = processFile lib inPath (conv, w)"
  by (simp add: main_def Let_def)

lemma main_directory:
  "status w inPath = Directory \<Longrightarrow>
     main lib inPath (conv, w) = processDirectory lib inPath True (conv, w)"
  by (simp add: main_def Let_def)

lemma create_directory_frame:
  "cwd (create_directory d w) = cwd w"
  "files (create_directory d w) = files w"
  "cerr (create_directory d w) = cerr w"
  "engine_calls (calls (create_directory d w)) = engine_calls (calls w)"
  "closed_inputs (calls (create_directory d w)) = closed_inputs (calls w)"
  by (simp_all add: create_directory_def record_call_def)

section \<open>Runs that end in an exception\<close>

text \<open>
  The functions named after the source are the program as long as nothing throws: a run that
  returns has done what they compute. \<open>convert\<close> throws only from the allocation of its
  buffer, after the input has been opened, and a run of the loop that ends in an exception has
  attempted some first files of the list and none after them.
\<close>

lemma convert_run_returned:
  "convert_run lib inPath outPath cw = Returned r \<Longrightarrow> r = convert lib inPath outPath cw"
  by (cases cw) (auto simp: convert_run_def Let_def split: option.splits if_splits)

lemma convert_run_no_throw:
  assumes "\<And>info. sf_info_of lib w inPath = Some info \<Longrightarrow>
             format info AND SF_FORMAT_SUBMASK \<noteq> SF_FORMAT_PCM_16 \<Longrightarrow>
             frames info * channels info \<le> alloc_limit w \<and>
             frames info * channels info \<le> vector_max_size"
  shows "convert_run lib inPath outPath (conv, w) = Returned (convert lib inPath outPath (conv, w))"
proof (cases rule: convert_cases [of lib w inPath])
  case failed then show ?thesis by (simp add: convert_run_def)
next
  case (copied info) then show ?thesis by (simp add: convert_run_def)
next
  case (resampled info)
  from assms [OF resampled] have b: "frames info * channels info \<le> alloc_limit w"
    "frames info * channels info \<le> vector_max_size" by simp_all
  then have "frames info * channels info < 2 ^ 64" by (simp add: vector_max_size_def)
  then have "vector_request info = frames info * channels info" by (simp add: vector_request_def)
  then show ?thesis using resampled b by (simp add: convert_run_def Let_def)
qed

lemma convert_run_terminated:
  assumes "convert_run lib inPath outPath (conv, w) = Terminated f w'"
  shows "w' = record_call (SfOpenRead inPath) (record_call (EngineConvert inPath outPath) w) \<and>
         (f = Length_error \<or> f = Bad_alloc \<or> f = Buffer_overrun)"
  using assms by (auto simp: convert_run_def Let_def split: option.splits if_splits)

lemma dir_loop_run_returned:
  "dir_loop_run lib inPath cd n fs k cw = Returned r \<Longrightarrow> r = dir_loop lib inPath cd n fs k cw"
proof (induction fs arbitrary: k cw)
  case Nil
  then show ?case by simp
next
  case (Cons f fs)
  obtain conv w where cw: "cw = (conv, w)" by (cases cw)
  let ?w = "say_out (getProgressStr f k n) w"
  let ?out = "destination ?w inPath cd f"
  let ?w1 = "create_directories (parent_path ?out) ?w"
  from Cons.prems cw obtain cw' where
    c: "convert_run lib f ?out (conv, ?w1) = Returned cw'" and
    l: "dir_loop_run lib inPath cd n fs (k + 1) cw' = Returned r"
    by (auto simp: Let_def split: if_splits outcome.splits)
  have "cw' = convert lib f ?out (conv, ?w1)" using c by (rule convert_run_returned)
  moreover have "r = dir_loop lib inPath cd n fs (k + 1) cw'" using l by (rule Cons.IH)
  ultimately show ?case using cw by (simp add: dir_loop.simps Let_def processFileTo_def)
qed

lemma processDirectory_run_returned:
  "processDirectory_run lib inPath r cw = Returned res \<Longrightarrow> res = processDirectory lib inPath r cw"
  by (cases cw)
     (auto simp: processDirectory_run_def processDirectory_def Let_def
           dest: dir_loop_run_returned split: if_splits)

lemma main_run_returned:
  "main_run lib inPath cw = Returned res \<Longrightarrow> res = main lib inPath cw"
  by (cases cw)
     (auto simp: main_run_def main_def processFile_def Let_def
           dest: processDirectory_run_returned convert_run_returned split: if_splits)

lemma limits_frame:
  "fs_throws (say_out l w) = fs_throws w" "alloc_limit (say_out l w) = alloc_limit w"
  "fs_throws (record_call c w) = fs_throws w" "alloc_limit (record_call c w) = alloc_limit w"
  "fs_throws (create_directory p w) = fs_throws w" "alloc_limit (create_directory p w) = alloc_limit w"
  "fs_throws (create_directories p w) = fs_throws w"
  "alloc_limit (create_directories p w) = alloc_limit w"
  "fs_throws (before_convert i d n k f w) = fs_throws w"
  "alloc_limit (before_convert i d n k f w) = alloc_limit w"
  "fs_throws (copyFile s t w) = fs_throws w" "alloc_limit (copyFile s t w) = alloc_limit w"
  by (simp_all add: say_out_def say_err_def record_call_def create_directory_def create_directories_def
        before_convert_def copyFile_def Let_def split: option.splits)

lemma convert_limits:
  "fs_throws (snd (convert lib inPath outPath (conv, w))) = fs_throws w"
  "alloc_limit (snd (convert lib inPath outPath (conv, w))) = alloc_limit w"
proof -
  show "fs_throws (snd (convert lib inPath outPath (conv, w))) = fs_throws w"
  proof (cases rule: convert_cases [of lib w inPath])
    case failed then show ?thesis by (simp add: convert_open_failed)
  next
    case (copied info) then show ?thesis
      by (simp add: convert_copy_eq limits_frame sf_close_def)
  next
    case (resampled info) then show ?thesis by (simp add: convert_resample_eq Let_def)
  qed
  show "alloc_limit (snd (convert lib inPath outPath (conv, w))) = alloc_limit w"
  proof (cases rule: convert_cases [of lib w inPath])
    case failed then show ?thesis by (simp add: convert_open_failed)
  next
    case (copied info) then show ?thesis
      by (simp add: convert_copy_eq limits_frame sf_close_def)
  next
    case (resampled info) then show ?thesis by (simp add: convert_resample_eq Let_def)
  qed
qed

lemma dir_loop_run_unfold:
  assumes "\<not> fs_throws w (FsRelative f inPath)"
      and "\<not> fs_throws w (FsCreateDirectories (parent_path (destination w inPath cd f)))"
  shows "dir_loop_run lib inPath cd n (f # fs) k (conv, w) =
           (case convert_run lib f (destination w inPath cd f) (conv, before_convert inPath cd n k f w) of
              Returned cw' \<Rightarrow> dir_loop_run lib inPath cd n fs (k + 1) cw'
            | Terminated e w' \<Rightarrow> Terminated e w')"
proof -
  have "destination (say_out (getProgressStr f k n) w) inPath cd f = destination w inPath cd f"
    by (rule destination_cwd) (simp add: say_out_def)
  then show ?thesis using assms by (simp add: Let_def before_convert_def limits_frame)
qed

lemma dir_loop_run_prefix:
  assumes "dir_loop_run lib inPath cd n fs k (conv, w) = Terminated e w'"
  shows "\<exists>j. j \<le> length fs \<and>
           engine_calls (calls w') =
             engine_calls (calls w) @ map (\<lambda>f. (f, destination w inPath cd f)) (take j fs)"
  using assms
proof (induction fs arbitrary: k conv w)
  case Nil
  then show ?case by simp
next
  case (Cons f fs)
  let ?w = "say_out (getProgressStr f k n) w"
  let ?out = "destination w inPath cd f"
  let ?w1 = "before_convert inPath cd n k f w"
  have d: "destination ?w inPath cd f = ?out" by (rule destination_cwd) (simp add: say_out_def)
  show ?case
  proof (cases "fs_throws w (FsRelative f inPath) \<or> fs_throws w (FsCreateDirectories (parent_path ?out))")
    case True
    then have "w' = ?w" using Cons.prems d
      by (auto simp: Let_def limits_frame split: if_splits)
    then have "engine_calls (calls w') =
        engine_calls (calls w) @ map (\<lambda>f. (f, destination w inPath cd f)) (take 0 (f # fs))"
      by (simp add: say_out_def)
    then show ?thesis by (intro exI [of _ 0]) simp
  next
    case False
    then have u: "dir_loop_run lib inPath cd n (f # fs) k (conv, w) =
           (case convert_run lib f ?out (conv, ?w1) of
              Returned cw' \<Rightarrow> dir_loop_run lib inPath cd n fs (k + 1) cw'
            | Terminated e w' \<Rightarrow> Terminated e w')"
      using dir_loop_run_unfold by simp
    show ?thesis
    proof (cases "convert_run lib f ?out (conv, ?w1)")
      case (Terminated e0 w0)
      then have "w' = w0" using Cons.prems u by simp
      then have "w' = record_call (SfOpenRead f) (record_call (EngineConvert f ?out) ?w1)"
        using convert_run_terminated [OF Terminated] by simp
      then have "engine_calls (calls w') =
          engine_calls (calls w) @ map (\<lambda>f. (f, destination w inPath cd f)) (take 1 (f # fs))"
        by (simp add: record_call_def before_convert_frame)
      then show ?thesis by (intro exI [of _ 1]) simp
    next
      case (Returned cw1)
      obtain c1 w1 where cw1: "cw1 = (c1, w1)" by (cases cw1)
      have r: "(c1, w1) = convert lib f ?out (conv, ?w1)"
        using convert_run_returned [OF Returned] cw1 by simp
      then have w1: "w1 = snd (convert lib f ?out (conv, ?w1))" by (metis snd_conv)
      have cwd1: "cwd w1 = cwd w" unfolding w1 by (simp add: convert_frame before_convert_frame)
      have e1: "engine_calls (calls w1) = engine_calls (calls w) @ [(f, ?out)]"
        unfolding w1 by (simp add: convert_engine_calls before_convert_frame)
      have "dir_loop_run lib inPath cd n fs (k + 1) (c1, w1) = Terminated e w'"
        using Cons.prems u Returned cw1 by simp
      from Cons.IH [OF this] obtain j where j: "j \<le> length fs"
        "engine_calls (calls w') =
           engine_calls (calls w1) @ map (\<lambda>f. (f, destination w1 inPath cd f)) (take j fs)"
        by blast
      have "engine_calls (calls w') =
          engine_calls (calls w) @ map (\<lambda>f. (f, destination w inPath cd f)) (take (Suc j) (f # fs))"
        using j(2) e1 destination_cwd [OF cwd1] by simp
      then show ?thesis using j(1) by (intro exI [of _ "Suc j"]) simp
    qed
  qed
qed

section \<open>Evaluating the small world\<close>

lemma call_projections_simps [simp]:
  "open_write_calls (xs @ ys) = open_write_calls xs @ open_write_calls ys"
  "open_write_calls [] = []"
  "open_write_calls (c # cs) = open_write_call c @ open_write_calls cs"
  "resample_calls (xs @ ys) = resample_calls xs @ resample_calls ys"
  "resample_calls [] = []"
  "resample_calls (c # cs) = resample_call c @ resample_calls cs"
  "write_calls (xs @ ys) = write_calls xs @ write_calls ys"
  "write_calls [] = []"
  "write_calls (c # cs) = write_call c @ write_calls cs"
  by (simp_all add: open_write_calls_def resample_calls_def write_calls_def)

lemmas path_defs = parent_path_def dir_part_def strip_seps_def stem_def extension_def
  filename_def path_append_def is_absolute_def is_sep_def

lemma demo_info:
  "sf_info_of demo_lib demo_world ''music/a.wav'' = Some demo_float"
  "sf_info_of demo_lib demo_world ''music/x/b.wav'' = Some demo_pcm16"
  "sf_info_of demo_lib demo_world ''music/bad.mp3'' = None"
  "sf_info_of demo_lib demo_world ''music/absent.wav'' = None"
  "sf_info_of demo_lib demo_world ''film/six.wav'' = Some demo_surround"
  by (simp_all add: sf_info_of_def demo_lib_def demo_world_def)

lemma demo_subformat:
  "format demo_float AND SF_FORMAT_SUBMASK \<noteq> SF_FORMAT_PCM_16"
  "format demo_pcm16 AND SF_FORMAT_SUBMASK = SF_FORMAT_PCM_16"
  "format demo_surround AND SF_FORMAT_SUBMASK \<noteq> SF_FORMAT_PCM_16"
  by (simp_all add: demo_float_def demo_pcm16_def demo_surround_def SF_FORMAT_SUBMASK_def
        SF_FORMAT_PCM_16_def)

lemma demo_out:
  "writable demo_world ''out/a.wav''" "\<not> write_fails demo_world ''out/a.wav''"
  "calls demo_world = []" "cerr demo_world = []" "cout demo_world = []"
  "sf_write_items demo_lib
     (demo_float\<lparr>samplerate := 48000, channels := 2,
                  format := SF_FORMAT_WAV OR SF_FORMAT_PCM_16\<rparr>) 4 = 4"
  "sf_encode demo_lib
     (demo_float\<lparr>samplerate := 48000, channels := 2,
                  format := SF_FORMAT_WAV OR SF_FORMAT_PCM_16\<rparr>)
     (resampled_buffer demo_lib demo_world ''music/a.wav'' demo_float) = [2, 4]"
  by (simp_all add: demo_world_def demo_float_def demo_lib_def)

lemma demo_tapes:
  "file_list demo_world ''tapes'' True = [''tapes/one.wav'', ''tapes/long.wav'', ''tapes/two.wav'']"
  "converted_dir ''tapes'' = ''tapes-SPC''"
  "status demo_world ''tapes'' = Directory"
  "alloc_limit demo_world = 2 ^ 30"
  "fs_throws demo_world c = False"
  "calls demo_world = []"
  "sf_info_of demo_lib demo_world ''tapes/one.wav'' = Some demo_float"
  "sf_info_of demo_lib demo_world ''tapes/long.wav'' = Some demo_long"
  "sf_info_of demo_lib demo_world ''tapes/two.wav'' = Some demo_float"
  "destination demo_world ''tapes'' ''tapes-SPC'' ''tapes/one.wav'' = ''tapes-SPC/one.wav''"
  "destination demo_world ''tapes'' ''tapes-SPC'' ''tapes/long.wav'' = ''tapes-SPC/long.wav''"
  by (simp_all add: file_list_def demo_world_def demo_lib_def sf_info_of_def hasAllowedExtension_iff
        converted_dir_def destination_def relative_def weakly_canonical_def absolute_def names_of_def
        path_defs Let_def)

lemma demo_long_request:
  "format demo_long AND SF_FORMAT_SUBMASK \<noteq> SF_FORMAT_PCM_16"
  "vector_request demo_long = 2 ^ 37"
  "\<not> vector_max_size < vector_request demo_long"
  "alloc_limit demo_world < vector_request demo_long"
  by (simp_all add: demo_long_def vector_request_def vector_max_size_def demo_world_def
        SF_FORMAT_SUBMASK_def SF_FORMAT_PCM_16_def)


section \<open>The claims about the conversion engine\<close>

text \<open>
  Claim C8. When inspection fails, that is when \<open>sf_open\<close> returns no handle for the input
  path, \<open>convert\<close> prints \<open>Error opening the input file.\<close> on the error stream and returns:
  it has made no other call than the failed open, the converter object is as it was, and no
  file has been created or changed, at the destination path or anywhere else.
\<close>

theorem convert_open_error:
  assumes "sf_info_of lib w inPath = None"
  shows "cerr (snd (convert lib inPath outPath (conv, w))) =
           cerr w @ [''Error opening the input file.''] \<and>
         files (snd (convert lib inPath outPath (conv, w))) = files w \<and>
         calls (snd (convert lib inPath outPath (conv, w))) =
           calls w @ [EngineConvert inPath outPath, SfOpenRead inPath] \<and>
         cout (snd (convert lib inPath outPath (conv, w))) = cout w \<and>
         fst (convert lib inPath outPath (conv, w)) = conv"
  using assms by (simp add: convert_open_failed)

theorem convert_open_error_witness:
  "sf_info_of demo_lib demo_world ''music/bad.mp3'' = None \<and>
   cerr (snd (convert demo_lib ''music/bad.mp3'' ''out/bad.mp3'' (demo_converter, demo_world))) =
     [''Error opening the input file.''] \<and>
   files (snd (convert demo_lib ''music/bad.mp3'' ''out/bad.mp3'' (demo_converter, demo_world)))
     ''out/bad.mp3'' = None"
  using convert_open_error [OF demo_info(3), of "''out/bad.mp3''" demo_converter] demo_info(3)
  by (simp add: demo_world_def)

text \<open>
  Claim C3. For every input that opens and whose subformat is not PCM16, the descriptor handed
  to \<open>sf_open\<close> for the destination is the source descriptor with the sample rate set to
  48000, the channel count to 2 and the format to WAV with PCM16 samples, whatever rate and
  channel count the source has; when the destination opens and the whole buffer is taken, the
  file written is encoded under that descriptor.
\<close>

theorem output_descriptor_fixed:
  assumes "sf_info_of lib w inPath = Some info"
      and "format info AND SF_FORMAT_SUBMASK \<noteq> SF_FORMAT_PCM_16"
  shows "let target = info\<lparr>samplerate := 48000, channels := 2,
                            format := SF_FORMAT_WAV OR SF_FORMAT_PCM_16\<rparr>;
             w' = snd (convert lib inPath outPath (conv, w))
         in open_write_calls (calls w') = open_write_calls (calls w) @ [(outPath, target)] \<and>
            samplerate target = 48000 \<and> channels target = 2 \<and>
            format target AND SF_FORMAT_SUBMASK = SF_FORMAT_PCM_16 \<and>
            format target AND SF_FORMAT_TYPEMASK = SF_FORMAT_WAV \<and>
            (writable w outPath \<and> \<not> write_fails w outPath \<and>
             sf_write_items lib target (frames info * channels info) = frames info * channels info \<longrightarrow>
               files w' outPath = Some (sf_encode lib target (resampled_buffer lib w inPath info)))"
  using assms by (simp add: convert_resample_eq Let_def target_format)

theorem output_descriptor_fixed_witness:
  "sf_info_of demo_lib demo_world ''music/a.wav'' = Some demo_float \<and>
   samplerate demo_float = 44100 \<and> channels demo_float = 1 \<and>
   format demo_float AND SF_FORMAT_SUBMASK \<noteq> SF_FORMAT_PCM_16 \<and>
   map fst (open_write_calls
     (calls (snd (convert demo_lib ''music/a.wav'' ''out/a.wav'' (demo_converter, demo_world))))) =
     [''out/a.wav''] \<and>
   map (samplerate \<circ> snd) (open_write_calls
     (calls (snd (convert demo_lib ''music/a.wav'' ''out/a.wav'' (demo_converter, demo_world))))) =
     [48000] \<and>
   map (channels \<circ> snd) (open_write_calls
     (calls (snd (convert demo_lib ''music/a.wav'' ''out/a.wav'' (demo_converter, demo_world))))) =
     [2] \<and>
   writable demo_world ''out/a.wav'' \<and> \<not> write_fails demo_world ''out/a.wav'' \<and>
   files (snd (convert demo_lib ''music/a.wav'' ''out/a.wav'' (demo_converter, demo_world)))
     ''out/a.wav'' = Some [2, 4]"
proof -
  have e: "frames demo_float = 4" "channels demo_float = 1" "samplerate demo_float = 44100"
    by (simp_all add: demo_float_def)
  show ?thesis
    using output_descriptor_fixed [OF demo_info(1) demo_subformat(1), of "''out/a.wav''" demo_converter]
      demo_info(1) demo_subformat(1) demo_out e
    by (simp add: Let_def)
qed




lemma convert_resample_calls:
  assumes "sf_info_of lib w inPath = Some info"
      and "format info AND SF_FORMAT_SUBMASK \<noteq> SF_FORMAT_PCM_16"
  shows "resample_calls (calls (snd (convert lib inPath outPath (conv, w)))) =
           resample_calls (calls w) @ [(48000, 48000, frames info * channels info)]"
  using assms by (simp add: convert_resample_eq Let_def)

text \<open>
  Claim C1 says that the resampler is invoked with the source file's sample rate as the rate
  to convert from and 48000 as the rate to convert to. The code sets \<open>sfinfo.samplerate\<close> to
  48000 before it constructs the resampler and then passes that field twice, so the resampler
  is asked to convert from 48000 to 48000 whatever the source rate is: for a float file at
  44100 Hz the one resampler invocation has the rates 48000 and 48000.
\<close>

theorem resampler_rates_at_44100:
  "sf_info_of demo_lib demo_world ''music/a.wav'' = Some demo_float \<and>
   samplerate demo_float = 44100 \<and>
   format demo_float AND SF_FORMAT_SUBMASK \<noteq> SF_FORMAT_PCM_16 \<and>
   resample_calls
     (calls (snd (convert demo_lib ''music/a.wav'' ''out/a.wav'' (demo_converter, demo_world)))) =
     [(48000, 48000, 4)]"
  using convert_resample_calls [OF demo_info(1) demo_subformat(1), of "''out/a.wav''" demo_converter]
    demo_info(1) demo_subformat(1)
  by (simp add: demo_world_def demo_float_def)

lemma convert_resample_console:
  assumes "sf_info_of lib w inPath = Some info"
      and "format info AND SF_FORMAT_SUBMASK \<noteq> SF_FORMAT_PCM_16"
  shows "cerr (snd (convert lib inPath outPath (conv, w))) = cerr w"
    and "cout (snd (convert lib inPath outPath (conv, w))) = cout w"
    and "\<not> writable w outPath \<or> write_fails w outPath \<Longrightarrow>
           wFrames (fst (convert lib inPath outPath (conv, w))) = 0"
    and "\<not> writable w outPath \<Longrightarrow> files (snd (convert lib inPath outPath (conv, w))) = files w"
  using assms by (auto simp: convert_resample_eq Let_def)

text \<open>
  Claim C9 says that a failure to open the destination for writing, or to write the buffer, is
  reported as a write error. The code never tests the handle \<open>sf_open\<close> returns for the
  destination and never reads the count \<open>sf_write_double\<close> returns: converting the float
  file to a destination that cannot be opened, or to one whose device refuses the data, stores
  0 in \<open>wFrames\<close> and prints nothing on either stream, as a conversion that succeeds does.
\<close>

theorem write_failure_unreported:
  "\<not> writable demo_world ''locked/out.wav'' \<and>
   write_fails demo_world ''full/out.wav'' \<and>
   sf_info_of demo_lib demo_world ''music/a.wav'' = Some demo_float \<and>
   format demo_float AND SF_FORMAT_SUBMASK \<noteq> SF_FORMAT_PCM_16 \<and>
   wFrames (fst (convert demo_lib ''music/a.wav'' ''locked/out.wav'' (demo_converter, demo_world))) = 0 \<and>
   cerr (snd (convert demo_lib ''music/a.wav'' ''locked/out.wav'' (demo_converter, demo_world))) = [] \<and>
   cout (snd (convert demo_lib ''music/a.wav'' ''locked/out.wav'' (demo_converter, demo_world))) = [] \<and>
   files (snd (convert demo_lib ''music/a.wav'' ''locked/out.wav'' (demo_converter, demo_world)))
     ''locked/out.wav'' = None \<and>
   wFrames (fst (convert demo_lib ''music/a.wav'' ''full/out.wav'' (demo_converter, demo_world))) = 0 \<and>
   cerr (snd (convert demo_lib ''music/a.wav'' ''full/out.wav'' (demo_converter, demo_world))) = [] \<and>
   cout (snd (convert demo_lib ''music/a.wav'' ''full/out.wav'' (demo_converter, demo_world))) = []"
proof -
  note c = convert_resample_console [OF demo_info(1) demo_subformat(1)]
  have l: "\<not> writable demo_world ''locked/out.wav''" and f: "write_fails demo_world ''full/out.wav''"
    and e: "cerr demo_world = []" "cout demo_world = []" "files demo_world ''locked/out.wav'' = None"
    by (simp_all add: demo_world_def)
  show ?thesis
    using demo_info(1) demo_subformat(1) l f e c(4) [OF l, of demo_converter]
      c(3) [of "''locked/out.wav''" demo_converter] c(3) [of "''full/out.wav''" demo_converter]
    by (simp add: c(1,2))
qed

lemma copyFile_decode_calls:
  "filter decode_call (calls (copyFile s d w)) = filter decode_call (calls w)"
  by (simp add: copyFile_def say_err_def record_call_def Let_def split: option.splits)

lemma sf_close_frame:
  "files (sf_close h w) = files w" "cerr (sf_close h w) = cerr w"
  "calls (sf_close h w) = calls w @ [SfClose h]"
  by (simp_all add: sf_close_def record_call_def)

lemma say_err_frame:
  "files (say_err l w) = files w" "cerr (say_err l w) = cerr w @ [l]"
  by (simp_all add: say_err_def)

lemma copyFile_copies:
  assumes "files w s = Some bs" and "writable w d" and "\<not> write_fails w d" and "d \<noteq> s"
  shows "files (copyFile s d w) = (files w)(d \<mapsto> bs)"
  using assms by (simp add: copyFile_def record_call_def Let_def)

lemma copyFile_locked:
  assumes "files w s = Some bs" and "\<not> writable w d"
  shows "copyFile s d w = say_err ''Error copying file: Failed to open destination file'' w"
  using assms by (simp add: copyFile_def)

lemma sf_info_of_Some_files: "sf_info_of lib w p = Some info \<Longrightarrow> \<exists>bs. files w p = Some bs"
  by (cases "files w p") (simp_all add: sf_info_of_def)

text \<open>
  Claim C2, amended. For every input that opens and whose subformat is PCM16, whatever its
  sample rate and channel count, \<open>convert\<close> takes the pass-through path: it makes no decode,
  resample or encode call. When the destination can be opened for writing, takes the data and
  is not the source file itself, the destination ends up with the bytes of the source and no
  other file changes. When the destination cannot be opened, \<open>copyFile\<close> prints
  \<open>Error copying file: Failed to open destination file\<close> and no file is written.
\<close>

theorem passthrough_copy:
  assumes "sf_info_of lib w inPath = Some info"
      and "format info AND SF_FORMAT_SUBMASK = SF_FORMAT_PCM_16"
  shows "let w' = snd (convert lib inPath outPath (conv, w))
         in filter decode_call (calls w') = filter decode_call (calls w) \<and>
            (writable w outPath \<and> \<not> write_fails w outPath \<and> outPath \<noteq> inPath \<longrightarrow>
               files w' = (files w)(outPath := files w inPath)) \<and>
            (\<not> writable w outPath \<longrightarrow>
               files w' = files w \<and>
               cerr w' = cerr w @ [''Error copying file: Failed to open destination file''])"
proof -
  obtain bs where bs: "files w inPath = Some bs" using sf_info_of_Some_files [OF assms(1)] by blast
  let ?w0 = "say_out ''[!] File is already 16 bit. Copying instead..''
               (record_call (SfOpenRead inPath) (record_call (EngineConvert inPath outPath) w))"
  have w0: "files ?w0 = files w" "writable ?w0 = writable w" "write_fails ?w0 = write_fails w"
    "cerr ?w0 = cerr w" "filter decode_call (calls ?w0) = filter decode_call (calls w)"
    by (simp_all add: say_out_def record_call_def)
  have eq: "snd (convert lib inPath outPath (conv, w)) =
              sf_close (Some (SndRead inPath)) (copyFile inPath outPath ?w0)"
    using assms by (simp add: convert_copy_eq)
  have 1: "filter decode_call (calls (snd (convert lib inPath outPath (conv, w)))) =
             filter decode_call (calls w)"
    unfolding eq by (simp add: sf_close_frame copyFile_decode_calls w0)
  have 2: "files (snd (convert lib inPath outPath (conv, w))) = (files w)(outPath := files w inPath)"
    if "writable w outPath" "\<not> write_fails w outPath" "outPath \<noteq> inPath"
    unfolding eq using that bs copyFile_copies [of ?w0 inPath bs outPath]
    by (simp add: sf_close_frame w0)
  have 3: "files (snd (convert lib inPath outPath (conv, w))) = files w \<and>
           cerr (snd (convert lib inPath outPath (conv, w))) =
             cerr w @ [''Error copying file: Failed to open destination file'']"
    if "\<not> writable w outPath"
    unfolding eq using that bs copyFile_locked [of ?w0 inPath bs outPath]
    by (simp add: sf_close_frame w0 say_err_frame)
  show ?thesis using 1 2 3 by (simp add: Let_def)
qed

theorem passthrough_copy_witness:
  "sf_info_of demo_lib demo_world ''music/x/b.wav'' = Some demo_pcm16 \<and>
   format demo_pcm16 AND SF_FORMAT_SUBMASK = SF_FORMAT_PCM_16 \<and>
   samplerate demo_pcm16 = 96000 \<and> channels demo_pcm16 = 1 \<and>
   writable demo_world ''out/b.wav'' \<and> \<not> write_fails demo_world ''out/b.wav'' \<and>
   files (snd (convert demo_lib ''music/x/b.wav'' ''out/b.wav'' (demo_converter, demo_world)))
     ''out/b.wav'' = Some [2] \<and>
   files demo_world ''music/x/b.wav'' = Some [2] \<and>
   \<not> writable demo_world ''locked/out.wav'' \<and>
   cerr (snd (convert demo_lib ''music/x/b.wav'' ''locked/out.wav'' (demo_converter, demo_world))) =
     [''Error copying file: Failed to open destination file'']"
  using passthrough_copy [OF demo_info(2) demo_subformat(2), of "''out/b.wav''" demo_converter]
    passthrough_copy [OF demo_info(2) demo_subformat(2), of "''locked/out.wav''" demo_converter]
    demo_info(2) demo_subformat(2)
  by (simp add: Let_def demo_world_def demo_pcm16_def)

text \<open>
  Claim C2 as it is written (every PCM16 input ends as a byte-identical copy at the
  destination) fails where the destination cannot be opened for writing: the source is PCM16,
  and after \<open>convert\<close> there is no file at the destination.
\<close>

theorem passthrough_copy_counterexample:
  "sf_info_of demo_lib demo_world ''music/x/b.wav'' = Some demo_pcm16 \<and>
   format demo_pcm16 AND SF_FORMAT_SUBMASK = SF_FORMAT_PCM_16 \<and>
   files demo_world ''music/x/b.wav'' = Some [2] \<and>
   files (snd (convert demo_lib ''music/x/b.wav'' ''locked/out.wav'' (demo_converter, demo_world)))
     ''locked/out.wav'' = None"
proof -
  have "\<not> writable demo_world ''locked/out.wav''" by (simp add: demo_world_def)
  then have "files (snd (convert demo_lib ''music/x/b.wav'' ''locked/out.wav'' (demo_converter, demo_world)))
      = files demo_world"
    using demo_info(2) demo_subformat(2)
    by (simp add: convert_copy_eq copyFile_def sf_info_of_def sf_close_def record_call_def
          say_out_def say_err_def demo_world_def)
  then show ?thesis using demo_info(2) demo_subformat(2) by (simp add: demo_world_def)
qed

section \<open>The claims about the path planner and the batch walker\<close>

text \<open>
  Claim C4. In single-file mode the destination is \<open>getOutPath\<close> of the input path: it has the
  parent path of the input, and its filename is the input's stem, then \<open>-SPC\<close>, then the
  input's extension, where stem and extension together are the input's filename. So
  \<open>track.flac\<close> goes to \<open>track-SPC.flac\<close>, and \<open>processFile\<close> makes exactly one conversion
  attempt, from the input to that path.
\<close>

theorem single_file_destination:
  "parent_path (getOutPath p) = parent_path p \<and>
   filename (getOutPath p) = stem p @ ''-SPC'' @ extension p \<and>
   stem p @ extension p = filename p \<and>
   engine_calls (calls (snd (processFile lib p (conv, w)))) =
     engine_calls (calls w) @ [(p, getOutPath p)] \<and>
   getOutPath ''track.flac'' = ''track-SPC.flac'' \<and>
   getOutPath ''/music/a.b/track.flac'' = ''/music/a.b/track-SPC.flac''"
  using getOutPath_ok [of p] by (simp add: processFile_def Let_def convert_engine_calls)

text \<open>
  Claim C6. The sources of the conversion attempts \<open>processDirectory\<close> makes are, in order,
  the paths of exactly those entries of the directory iteration that are regular files and
  whose extension is one of \<open>.wav\<close>, \<open>.flac\<close>, \<open>.ogg\<close>, \<open>.mp3\<close>, compared as strings:
  \<open>notes.txt\<close> and \<open>song.MP3\<close> do not pass the filter, \<open>song.mp3\<close> does.
\<close>

theorem walker_filter:
  "map fst (engine_calls (calls (snd (processDirectory lib inPath r (conv, w))))) =
     map fst (engine_calls (calls w)) @
     map entry_path
       (filter (\<lambda>e. entry_regular e \<and>
                     extension (entry_path e) \<in> {''.wav'', ''.flac'', ''.ogg'', ''.mp3''})
          (if r then recursive_directory_iterator w inPath else directory_iterator w inPath)) \<and>
   \<not> hasAllowedExtension ''notes.txt'' \<and> \<not> hasAllowedExtension ''song.MP3'' \<and>
   hasAllowedExtension ''song.mp3''"
proof -
  have "map fst (engine_calls (calls (snd (processDirectory lib inPath r (conv, w))))) =
          map fst (engine_calls (calls w)) @ file_list w inPath r"
    by (simp add: processDirectory_eq dir_loop_engine_calls create_directory_frame comp_def)
  moreover have "file_list w inPath r =
      map entry_path
       (filter (\<lambda>e. entry_regular e \<and>
                     extension (entry_path e) \<in> {''.wav'', ''.flac'', ''.ogg'', ''.mp3''})
          (if r then recursive_directory_iterator w inPath else directory_iterator w inPath))"
    by (simp add: file_list_def getFilePaths_filter hasAllowedExtension_iff)
  moreover have "\<not> hasAllowedExtension ''notes.txt''" "\<not> hasAllowedExtension ''song.MP3''"
    "hasAllowedExtension ''song.mp3''"
    by (simp_all add: hasAllowedExtension_iff extension_def filename_def is_sep_def Let_def)
  ultimately show ?thesis by simp
qed

text \<open>
  The batch as long as nothing throws. For a list of N eligible files \<open>processDirectory\<close>
  makes N conversion attempts, one per file in the order of the list, each to the destination
  planned for that file. When no destination is itself one of the files of the batch, the
  attempts that print the open error are exactly the files that cannot be opened when the
  batch starts, and every other file is opened and closed again in its turn.
\<close>

lemma attempts_without_exception:
  "let fileList = file_list w inPath r;
       dest = destination w inPath (converted_dir inPath);
       w' = snd (processDirectory lib inPath r (conv, w))
   in engine_calls (calls w') = engine_calls (calls w) @ map (\<lambda>f. (f, dest f)) fileList \<and>
      length (engine_calls (calls w')) = length (engine_calls (calls w)) + length fileList \<and>
      (set (map dest fileList) \<inter> set fileList = {} \<longrightarrow>
         open_errors (cerr w') =
           open_errors (cerr w) + length (filter (\<lambda>f. sf_info_of lib w f = None) fileList) \<and>
         closed_inputs (calls w') =
           closed_inputs (calls w) @ filter (\<lambda>f. sf_info_of lib w f \<noteq> None) fileList)"
proof -
  let ?cd = "converted_dir inPath"
  let ?fs = "file_list w inPath r"
  let ?w0 = "create_directory ?cd w"
  have d: "destination ?w0 inPath ?cd = destination w inPath ?cd"
    using destination_cwd [of ?w0 w] by (auto simp: create_directory_frame)
  have i: "sf_info_of lib ?w0 = sf_info_of lib w"
    using sf_info_of_files [of ?w0 _ w lib] by (auto simp: create_directory_frame)
  have e: "engine_calls (calls (snd (processDirectory lib inPath r (conv, w)))) =
             engine_calls (calls w) @ map (\<lambda>f. (f, destination w inPath ?cd f)) ?fs"
    by (simp add: processDirectory_eq dir_loop_engine_calls create_directory_frame d)
  have oc: "open_errors (cerr (snd (processDirectory lib inPath r (conv, w)))) =
             open_errors (cerr w) + length (filter (\<lambda>f. sf_info_of lib w f = None) ?fs) \<and>
           closed_inputs (calls (snd (processDirectory lib inPath r (conv, w)))) =
             closed_inputs (calls w) @ filter (\<lambda>f. sf_info_of lib w f \<noteq> None) ?fs"
    if disj: "set (map (destination w inPath ?cd) ?fs) \<inter> set ?fs = {}"
  proof -
    have "\<forall>f \<in> set ?fs. destination ?w0 inPath ?cd f \<notin> set ?fs"
      using disj unfolding d by auto
    from dir_loop_outcomes [OF this, of lib "length ?fs" 1 conv]
    show ?thesis by (simp add: processDirectory_eq create_directory_frame i)
  qed
  show ?thesis using e oc by (simp add: Let_def)
qed

lemma demo_file_list:
  "file_list demo_world ''music'' True = [''music/a.wav'', ''music/bad.mp3'', ''music/x/b.wav'']"
  "file_list demo_world ''music/'' True = [''music/a.wav'', ''music/bad.mp3'', ''music/x/b.wav'']"
  by (simp_all add: file_list_def demo_world_def hasAllowedExtension_iff extension_def filename_def
        path_append_def is_absolute_def is_sep_def Let_def)

lemma demo_canonical:
  "weakly_canonical demo_world ''music'' = [''home'', ''music'']"
  "weakly_canonical demo_world ''music/'' = [''home'', ''music'']"
  "weakly_canonical demo_world ''music/a.wav'' = [''home'', ''music'', ''a.wav'']"
  "weakly_canonical demo_world ''music/x/b.wav'' = [''home'', ''music'', ''x'', ''b.wav'']"
  "weakly_canonical demo_world ''music/bad.mp3'' = [''home'', ''music'', ''bad.mp3'']"
  "weakly_canonical demo_world ''music-SPC'' = [''home'', ''music-SPC'']"
  "weakly_canonical demo_world ''music/-SPC'' = [''home'', ''music'', ''-SPC'']"
  by (simp_all add: weakly_canonical_def absolute_def demo_world_def names_of_def path_append_def
        filename_def is_absolute_def is_sep_def)

lemma demo_converted_dir:
  "converted_dir ''music'' = ''music-SPC''" "converted_dir ''music/'' = ''music/-SPC''"
  by (simp_all add: converted_dir_def path_defs Let_def)

lemma demo_destination:
  "destination demo_world ''music'' ''music-SPC'' ''music/a.wav'' = ''music-SPC/a.wav''"
  "destination demo_world ''music'' ''music-SPC'' ''music/x/b.wav'' = ''music-SPC/x/b.wav''"
  "destination demo_world ''music'' ''music-SPC'' ''music/bad.mp3'' = ''music-SPC/bad.mp3''"
  "destination demo_world ''music/'' ''music/-SPC'' ''music/a.wav'' = ''music/-SPC/a.wav''"
  "destination demo_world ''music/'' ''music/-SPC'' ''music/x/b.wav'' = ''music/-SPC/x/b.wav''"
  "destination demo_world ''music/'' ''music/-SPC'' ''music/bad.mp3'' = ''music/-SPC/bad.mp3''"
  by (simp_all add: destination_def relative_def demo_canonical Let_def path_append_def filename_def
        is_absolute_def is_sep_def)

lemma attempts_without_exception_demo:
  "set (map (destination demo_world ''music'' (converted_dir ''music''))
          (file_list demo_world ''music'' True)) \<inter>
     set (file_list demo_world ''music'' True) = {} \<and>
   engine_calls (calls (snd (processDirectory demo_lib ''music'' True (demo_converter, demo_world)))) =
     [(''music/a.wav'', ''music-SPC/a.wav''), (''music/bad.mp3'', ''music-SPC/bad.mp3''),
      (''music/x/b.wav'', ''music-SPC/x/b.wav'')] \<and>
   open_errors (cerr (snd (processDirectory demo_lib ''music'' True (demo_converter, demo_world)))) = 1 \<and>
   closed_inputs (calls (snd (processDirectory demo_lib ''music'' True (demo_converter, demo_world)))) =
     [''music/a.wav'', ''music/x/b.wav'']"
proof -
  have h: "set (map (destination demo_world ''music'' (converted_dir ''music''))
          (file_list demo_world ''music'' True)) \<inter>
     set (file_list demo_world ''music'' True) = {}"
    by (simp add: demo_file_list demo_converted_dir demo_destination)
  have e: "cerr demo_world = []" "calls demo_world = []" by (simp_all add: demo_world_def)
  show ?thesis
    using h attempts_without_exception [of demo_world "''music''" True demo_lib demo_converter]
    by (simp add: Let_def demo_file_list demo_converted_dir demo_destination demo_info e
          open_errors_def)
qed

text \<open>
  A file whose data ends before the frame count of its header is reached opens as any other.
  \<open>sf_readf_double\<close> returns fewer frames than were asked for, the count is stored in
  \<open>rFrames\<close> and never read, and the attempt prints nothing: it is not told apart from one
  that converts the whole file.
\<close>

lemma truncated_file_unreported:
  "sf_info_of demo_lib demo_world ''solo/cut.wav'' = Some demo_short \<and>
   frames demo_short = 4 \<and>
   rFrames (fst (convert demo_lib ''solo/cut.wav'' ''out/cut.wav'' (demo_converter, demo_world))) = 2 \<and>
   cerr (snd (convert demo_lib ''solo/cut.wav'' ''out/cut.wav'' (demo_converter, demo_world))) = [] \<and>
   cout (snd (convert demo_lib ''solo/cut.wav'' ''out/cut.wav'' (demo_converter, demo_world))) = [] \<and>
   closed_inputs
     (calls (snd (convert demo_lib ''solo/cut.wav'' ''out/cut.wav'' (demo_converter, demo_world)))) =
     [''solo/cut.wav'']"
proof -
  have i: "sf_info_of demo_lib demo_world ''solo/cut.wav'' = Some demo_short"
    by (simp add: sf_info_of_def demo_lib_def demo_world_def)
  have f: "format demo_short AND SF_FORMAT_SUBMASK \<noteq> SF_FORMAT_PCM_16"
    by (simp add: demo_short_def SF_FORMAT_SUBMASK_def SF_FORMAT_PCM_16_def)
  have s: "stream_of demo_lib (Some (SndRead ''solo/cut.wav'')) demo_world = [1/2, 1/4]"
    by (simp add: stream_of_def demo_lib_def demo_world_def)
  have e: "frames demo_short = 4" "channels demo_short = 1" "cerr demo_world = []"
    "cout demo_world = []" "calls demo_world = []"
    by (simp_all add: demo_short_def demo_world_def)
  show ?thesis using i e by (simp add: convert_resample_eq [OF i f] Let_def s)
qed

text \<open>
  \<open>fs::create_directories\<close> is called in the form that throws. When it throws for the
  directory of the first destination, the run ends there and no file of the batch is
  attempted.
\<close>

lemma batch_ends_at_filesystem_error:
  "ending (main_run demo_lib ''tapes''
     (demo_converter, demo_world\<lparr>fs_throws := (\<lambda>c. c = FsCreateDirectories ''tapes-SPC'')\<rparr>)) =
     Some (Filesystem_error (FsCreateDirectories ''tapes-SPC'')) \<and>
   engine_calls (calls (final_world (main_run demo_lib ''tapes''
     (demo_converter, demo_world\<lparr>fs_throws := (\<lambda>c. c = FsCreateDirectories ''tapes-SPC'')\<rparr>)))) = []"
proof -
  let ?w = "demo_world\<lparr>fs_throws := (\<lambda>c. c = FsCreateDirectories ''tapes-SPC'')\<rparr>"
  let ?v = "create_directory ''tapes-SPC'' ?w"
  let ?u = "say_out (getProgressStr ''tapes/one.wav'' (Suc 0) (Suc (Suc (Suc 0)))) ?v"
  have f: "file_list ?w ''tapes'' True = [''tapes/one.wav'', ''tapes/long.wav'', ''tapes/two.wav'']"
    using demo_tapes(1) by (simp add: file_list_def)
  have d: "destination ?u ''tapes'' ''tapes-SPC'' ''tapes/one.wav'' = ''tapes-SPC/one.wav''"
    using destination_cwd [of ?u demo_world] demo_tapes(10)
    by (simp add: say_out_def create_directory_frame)
  have p: "parent_path ''tapes-SPC/one.wav'' = ''tapes-SPC''" by (simp add: path_defs Let_def)
  have t: "fs_throws ?u c = (c = FsCreateDirectories ''tapes-SPC'')" for c
    by (simp add: limits_frame)
  have l: "dir_loop_run demo_lib ''tapes'' ''tapes-SPC'' (Suc (Suc (Suc 0)))
             [''tapes/one.wav'', ''tapes/long.wav'', ''tapes/two.wav''] (Suc 0) (demo_converter, ?v) =
           Terminated (Filesystem_error (FsCreateDirectories ''tapes-SPC'')) ?u"
    by (simp add: Let_def d p t)
  have m: "main_run demo_lib ''tapes'' (demo_converter, ?w) =
           Terminated (Filesystem_error (FsCreateDirectories ''tapes-SPC'')) ?u"
    using demo_tapes(3)
    by (simp add: main_run_def processDirectory_run_def Let_def f demo_tapes(2) l
          del: dir_loop_run.simps)
  show ?thesis unfolding m using demo_tapes(6)
    by (simp add: say_out_def create_directory_frame)
qed

text \<open>
  Claim C7 says that a batch of N eligible files gets exactly N conversion attempts and that
  the failure of one attempt never prevents the attempts that remain. The loop of
  \<open>processDirectory\<close> and \<open>main\<close> have no handler, and \<open>convert\<close> has one only inside
  \<open>copyFile\<close>, so an exception thrown in one attempt ends the process. The batch \<open>tapes\<close>
  has three eligible files; the header of the second declares \<open>2^36\<close> stereo frames, more
  samples than can be allocated. The run ends with \<open>bad_alloc\<close> in the second attempt, and
  the third file, a float file that opens, is never attempted: two attempts for three files.
\<close>

theorem batch_ends_at_bad_alloc:
  "file_list demo_world ''tapes'' True = [''tapes/one.wav'', ''tapes/long.wav'', ''tapes/two.wav''] \<and>
   sf_info_of demo_lib demo_world ''tapes/long.wav'' = Some demo_long \<and>
   alloc_limit demo_world < vector_request demo_long \<and>
   sf_info_of demo_lib demo_world ''tapes/two.wav'' = Some demo_float \<and>
   ending (main_run demo_lib ''tapes'' (demo_converter, demo_world)) = Some Bad_alloc \<and>
   engine_calls (calls (final_world (main_run demo_lib ''tapes'' (demo_converter, demo_world)))) =
     [(''tapes/one.wav'', ''tapes-SPC/one.wav''), (''tapes/long.wav'', ''tapes-SPC/long.wav'')]"
proof -
  let ?cd = "''tapes-SPC''"
  let ?n = "Suc (Suc (Suc 0))"
  let ?w0 = "create_directory ?cd demo_world"
  let ?wa = "before_convert ''tapes'' ?cd ?n (Suc 0) ''tapes/one.wav'' ?w0"
  obtain c1 w1 where r1: "convert demo_lib ''tapes/one.wav'' ''tapes-SPC/one.wav'' (demo_converter, ?wa) = (c1, w1)"
    by (cases "convert demo_lib ''tapes/one.wav'' ''tapes-SPC/one.wav'' (demo_converter, ?wa)")
  then have w1: "w1 = snd (convert demo_lib ''tapes/one.wav'' ''tapes-SPC/one.wav'' (demo_converter, ?wa))"
    by simp
  let ?wb = "before_convert ''tapes'' ?cd ?n (Suc (Suc 0)) ''tapes/long.wav'' w1"
  have cwd0: "cwd ?w0 = cwd demo_world" by (simp add: create_directory_frame)
  have cwd1: "cwd w1 = cwd demo_world"
    unfolding w1 by (simp add: convert_frame before_convert_frame create_directory_frame)
  have d0: "destination ?w0 ''tapes'' ?cd ''tapes/one.wav'' = ''tapes-SPC/one.wav''"
    using destination_cwd [OF cwd0] by (simp add: demo_tapes)
  have d1: "destination w1 ''tapes'' ?cd ''tapes/long.wav'' = ''tapes-SPC/long.wav''"
    using destination_cwd [OF cwd1] by (simp add: demo_tapes)
  have t0: "fs_throws ?w0 c = False" "alloc_limit ?wa = 2 ^ 30" for c
    by (simp_all add: limits_frame demo_tapes)
  have t1: "fs_throws w1 c = False" "alloc_limit ?wb = 2 ^ 30" for c
    unfolding w1 by (simp_all add: convert_limits limits_frame demo_tapes)
  have i0: "sf_info_of demo_lib ?wa ''tapes/one.wav'' = Some demo_float"
    using sf_info_of_files [of ?wa "''tapes/one.wav''" demo_world demo_lib]
    by (simp add: before_convert_frame create_directory_frame demo_tapes)
  have i1: "sf_info_of demo_lib ?wb ''tapes/long.wav'' = Some demo_long"
  proof -
    have "files w1 ''tapes/long.wav'' = files ?wa ''tapes/long.wav''"
      unfolding w1 by (rule convert_files_other) simp
    then have "files ?wb ''tapes/long.wav'' = files demo_world ''tapes/long.wav''"
      by (simp add: before_convert_frame create_directory_frame)
    then show ?thesis using sf_info_of_files [of ?wb "''tapes/long.wav''" demo_world demo_lib]
      by (simp add: demo_tapes)
  qed
  have s1: "convert_run demo_lib ''tapes/one.wav'' ''tapes-SPC/one.wav'' (demo_converter, ?wa) =
              Returned (c1, w1)"
    unfolding r1 [symmetric]
    by (rule convert_run_no_throw)
       (use i0 t0 in \<open>auto simp: demo_float_def vector_max_size_def\<close>)
  have s2: "convert_run demo_lib ''tapes/long.wav'' ''tapes-SPC/long.wav'' (c1, ?wb) =
              Terminated Bad_alloc
                (record_call (SfOpenRead ''tapes/long.wav'')
                   (record_call (EngineConvert ''tapes/long.wav'' ''tapes-SPC/long.wav'') ?wb))"
    using demo_long_request t1(2) by (simp add: convert_run_def i1 Let_def demo_tapes)
  have l2: "dir_loop_run demo_lib ''tapes'' ?cd ?n [''tapes/long.wav'', ''tapes/two.wav''] (Suc (Suc 0)) (c1, w1) =
              Terminated Bad_alloc
                (record_call (SfOpenRead ''tapes/long.wav'')
                   (record_call (EngineConvert ''tapes/long.wav'' ''tapes-SPC/long.wav'') ?wb))"
    using dir_loop_run_unfold [of w1 "''tapes/long.wav''" "''tapes''" ?cd demo_lib ?n
            "[''tapes/two.wav'']" "Suc (Suc 0)" c1]
    by (simp add: t1 d1 s2 del: dir_loop_run.simps)
  have l1: "dir_loop_run demo_lib ''tapes'' ?cd ?n
              [''tapes/one.wav'', ''tapes/long.wav'', ''tapes/two.wav''] (Suc 0) (demo_converter, ?w0) =
              Terminated Bad_alloc
                (record_call (SfOpenRead ''tapes/long.wav'')
                   (record_call (EngineConvert ''tapes/long.wav'' ''tapes-SPC/long.wav'') ?wb))"
    using dir_loop_run_unfold [of ?w0 "''tapes/one.wav''" "''tapes''" ?cd demo_lib ?n
            "[''tapes/long.wav'', ''tapes/two.wav'']" "Suc 0" demo_converter]
    by (simp add: t0 d0 s1 l2 del: dir_loop_run.simps)
  have m: "main_run demo_lib ''tapes'' (demo_converter, demo_world) =
              Terminated Bad_alloc
                (record_call (SfOpenRead ''tapes/long.wav'')
                   (record_call (EngineConvert ''tapes/long.wav'' ''tapes-SPC/long.wav'') ?wb))"
    by (simp add: main_run_def processDirectory_run_def Let_def demo_tapes l1 del: dir_loop_run.simps)
  have e1: "engine_calls (calls w1) = [(''tapes/one.wav'', ''tapes-SPC/one.wav'')]"
    unfolding w1
    by (simp add: convert_engine_calls before_convert_frame create_directory_frame demo_tapes)
  show ?thesis
    unfolding m using demo_long_request(4)
    by (simp add: demo_tapes record_call_def before_convert_frame e1)
qed

section \<open>Mirroring a directory tree\<close>

text \<open>
  Two facts about directory mode that hold for every world. A source that lies below the
  input path, at \<open>inPath/n1/.../nk\<close> as the directory iterators spell it, goes to the
  destination root followed by the same names. And when the input path ends in a name that is
  neither \<open>.\<close> nor \<open>..\<close>, the destination root is, in canonical form, the parent of the
  input directory followed by that name with \<open>-SPC\<close> added.
\<close>

lemma split_on_sep_not_Nil [simp]: "split_on_sep p \<noteq> []"
  by (induction p) (auto split: list.splits)

lemma split_on_sep_append:
  "split_on_sep (a @ CHR ''/'' # b) = split_on_sep a @ split_on_sep b"
proof (induction a)
  case Nil
  show ?case by (simp add: is_sep_def)
next
  case (Cons c a)
  show ?case
  proof (cases "is_sep c")
    case True
    then show ?thesis using Cons by simp
  next
    case False
    obtain x xs where s: "split_on_sep a = x # xs" by (cases "split_on_sep a") auto
    show ?thesis using False Cons s by simp
  qed
qed

lemma names_of_append_sep: "names_of (a @ CHR ''/'' # b) = names_of a @ names_of b"
  by (simp add: names_of_def split_on_sep_append)

lemma names_of_Nil [simp]: "names_of [] = []"
  by (simp add: names_of_def)

lemma filename_Nil_cases: "filename a = [] \<Longrightarrow> a = [] \<or> (\<exists>a'. a = a' @ ''/'')"
proof -
  assume "filename a = []"
  then have "rev a = [] \<or> is_sep (hd (rev a))"
    by (simp add: filename_def takeWhile_eq_Nil_iff)
  then have "a = [] \<or> is_sep (last a)" by (auto simp: hd_rev)
  then show ?thesis
    by (metis append_butlast_last_id is_sep_def)
qed

lemma names_of_append_dir:
  assumes "filename a = []"
  shows "names_of (a @ b) = names_of a @ names_of b"
proof -
  from filename_Nil_cases [OF assms] show ?thesis
  proof
    assume "a = []" then show ?thesis by simp
  next
    assume "\<exists>a'. a = a' @ ''/''"
    then obtain a' where a: "a = a' @ ''/''" by blast
    have "names_of (a' @ CHR ''/'' # b) = names_of a' @ names_of b" by (rule names_of_append_sep)
    moreover have "names_of (a' @ CHR ''/'' # []) = names_of a' @ names_of []"
      by (rule names_of_append_sep)
    ultimately show ?thesis using a by simp
  qed
qed

lemma names_of_path_append:
  assumes "\<not> is_absolute b"
  shows "names_of (path_append a b) = names_of a @ names_of b"
  using assms names_of_append_dir [of a b] names_of_append_sep [of a b]
  by (simp add: path_append_def)

lemma split_on_sep_name: "\<not> list_ex is_sep n \<Longrightarrow> split_on_sep n = [n]"
  by (induction n) auto

lemma names_of_clean: "clean_name n \<Longrightarrow> names_of n = [n]"
  by (simp add: clean_name_def names_of_def split_on_sep_name)

lemma clean_relative: "clean_name n \<Longrightarrow> \<not> is_absolute n"
  by (cases n) (auto simp: clean_name_def is_absolute_def)

lemma is_absolute_path_append:
  "\<not> is_absolute b \<Longrightarrow> is_absolute (path_append a b) = is_absolute a"
  by (cases a) (auto simp: path_append_def is_absolute_def filename_def)

lemma names_of_joined:
  assumes "list_all clean_name ns"
  shows "names_of (foldl path_append a ns) = names_of a @ ns \<and>
         is_absolute (foldl path_append a ns) = is_absolute a"
  using assms
proof (induction ns arbitrary: a)
  case Nil
  show ?case by simp
next
  case (Cons n ns)
  then have n: "clean_name n" and ns: "list_all clean_name ns" by simp_all
  have "names_of (path_append a n) = names_of a @ [n]"
    using names_of_path_append [OF clean_relative [OF n], of a] names_of_clean [OF n] by simp
  moreover have "is_absolute (path_append a n) = is_absolute a"
    using is_absolute_path_append [OF clean_relative [OF n]] by simp
  ultimately show ?case using Cons.IH [OF ns, of "path_append a n"] by simp
qed

lemma weakly_canonical_absolute: "weakly_canonical w p = normal_names [] (names_of (absolute w p))"
  by (simp add: weakly_canonical_def)

lemma names_of_absolute_joined:
  assumes "list_all clean_name ns"
  shows "names_of (absolute w (foldl path_append a ns)) = names_of (absolute w a) @ ns"
proof (cases "is_absolute a")
  case True
  then show ?thesis using names_of_joined [OF assms, of a] by (simp add: absolute_def)
next
  case False
  then have r: "\<not> is_absolute (foldl path_append a ns)" using names_of_joined [OF assms, of a] by simp
  show ?thesis
    using False r names_of_path_append [OF r, of "cwd w"] names_of_path_append [OF False, of "cwd w"]
      names_of_joined [OF assms, of a]
    by (simp add: absolute_def)
qed

lemma normal_names_clean:
  "list_all clean_name ns \<Longrightarrow> normal_names acc ns = rev acc @ ns"
  by (induction ns arbitrary: acc) (auto simp: clean_name_def)

lemma normal_names_append:
  "normal_names acc (xs @ ys) = normal_names (rev (normal_names acc xs)) ys"
  by (induction xs arbitrary: acc) auto

lemma normal_names_append_clean:
  "list_all clean_name ns \<Longrightarrow> normal_names acc (xs @ ns) = normal_names acc xs @ ns"
  by (simp add: normal_names_append [of acc xs ns] normal_names_clean)

lemma lexically_relative_prefix: "ns \<noteq> [] \<Longrightarrow> lexically_relative (xs @ ns) xs = ns"
  by (induction xs) (auto simp: neq_Nil_conv)

lemma relative_joined:
  assumes "list_all clean_name ns" and "ns \<noteq> []"
  shows "relative w (foldl path_append base ns) base = foldl path_append [] ns"
  using assms
  by (simp add: relative_def weakly_canonical_absolute names_of_absolute_joined
        normal_names_append_clean lexically_relative_prefix Let_def)


lemma filename_last_not_sep:
  "b \<noteq> [] \<Longrightarrow> \<not> is_sep (last b) \<Longrightarrow> filename (a @ b) \<noteq> []"
  by (cases b rule: rev_cases) (auto simp: filename_def)

lemma path_append_last:
  assumes "b \<noteq> []" and "\<not> is_sep (last b)"
  shows "path_append a b \<noteq> [] \<and> \<not> is_sep (last (path_append a b))"
  using assms by (auto simp: path_append_def is_sep_def)

lemma path_append_assoc:
  assumes "b \<noteq> []" and "\<not> is_sep (last b)" and "\<not> is_absolute b" and "\<not> is_absolute c"
  shows "path_append (path_append a b) c = path_append a (path_append b c)"
proof -
  have fb: "filename b \<noteq> []" using filename_last_not_sep [OF assms(1,2), of "[]"] by simp
  have bc: "path_append b c = b @ ''/'' @ c" using fb assms(4) by (simp add: path_append_def)
  have rbc: "\<not> is_absolute (path_append b c)"
    using is_absolute_path_append [OF assms(4), of b] assms(3) by simp
  show ?thesis
  proof (cases "filename a = []")
    case True
    then have ab: "path_append a b = a @ b" using assms(3) by (simp add: path_append_def)
    have "filename (a @ b) \<noteq> []" by (rule filename_last_not_sep [OF assms(1,2)])
    then show ?thesis using ab bc rbc True assms(4) by (simp add: path_append_def)
  next
    case False
    then have ab: "path_append a b = (a @ ''/'') @ b" using assms(3) by (simp add: path_append_def)
    have "filename ((a @ ''/'') @ b) \<noteq> []" by (rule filename_last_not_sep [OF assms(1,2)])
    then show ?thesis using ab bc rbc False assms(4) by (simp add: path_append_def)
  qed
qed

lemma clean_last: "clean_name n \<Longrightarrow> n \<noteq> [] \<and> \<not> is_sep (last n)"
  by (cases n rule: rev_cases) (auto simp: clean_name_def)

lemma joined_relative:
  assumes "list_all clean_name ns" and "ns \<noteq> []"
  shows "foldl path_append [] ns \<noteq> [] \<and> \<not> is_sep (last (foldl path_append [] ns)) \<and>
         \<not> is_absolute (foldl path_append [] ns) \<and>
         foldl path_append a ns = path_append a (foldl path_append [] ns)"
  using assms
proof (induction ns rule: rev_induct)
  case Nil
  then show ?case by simp
next
  case (snoc n ns)
  then have n: "clean_name n" and ns: "list_all clean_name ns" by simp_all
  note nr = clean_relative [OF n] and nl = clean_last [OF n]
  show ?case
  proof (cases "ns = []")
    case True
    have "path_append [] n = n" using nr by (simp add: path_append_def filename_def)
    then show ?thesis using True nr nl by simp
  next
    case False
    let ?b = "foldl path_append [] ns"
    from snoc.IH [OF ns False]
    have b: "?b \<noteq> []" "\<not> is_sep (last ?b)" "\<not> is_absolute ?b"
      and f: "foldl path_append a ns = path_append a ?b" by simp_all
    have "path_append (path_append a ?b) n = path_append a (path_append ?b n)"
      by (rule path_append_assoc [OF b nr])
    moreover have "path_append ?b n \<noteq> [] \<and> \<not> is_sep (last (path_append ?b n))"
      using path_append_last nl by simp
    moreover have "\<not> is_absolute (path_append ?b n)"
      using is_absolute_path_append [OF nr, of ?b] b(3) by simp
    ultimately show ?thesis using f by simp
  qed
qed

lemma mirrored_destination:
  assumes "list_all clean_name ns" and "ns \<noteq> []"
  shows "destination w inPath (converted_dir inPath) (foldl path_append inPath ns) =
           foldl path_append (converted_dir inPath) ns"
  using joined_relative [OF assms, of "converted_dir inPath"] relative_joined [OF assms, of w inPath]
  by (simp add: destination_def Let_def)

lemma names_of_strip_seps: "names_of (strip_seps p) = names_of p"
proof (induction p rule: rev_induct)
  case Nil
  show ?case by (simp add: strip_seps_def)
next
  case (snoc c p)
  show ?case
  proof (cases "is_sep c")
    case True
    then have "strip_seps (p @ [c]) = strip_seps p" by (simp add: strip_seps_def)
    moreover have "names_of (p @ CHR ''/'' # []) = names_of p @ names_of []"
      by (rule names_of_append_sep)
    ultimately show ?thesis using snoc True by (simp add: is_sep_def)
  next
    case False
    then show ?thesis by (simp add: strip_seps_def)
  qed
qed

lemma names_of_parent_path: "names_of (parent_path p) = names_of (dir_part p)"
  by (simp add: parent_path_def Let_def names_of_strip_seps)

lemma dir_part_no_filename: "filename (dir_part p) = []"
  using hd_dropWhile [of "\<lambda>c. \<not> is_sep c" "rev p"]
  by (auto simp: dir_part_def filename_def takeWhile_eq_Nil_iff)

lemma names_of_split:
  "names_of p = names_of (parent_path p) @ names_of (filename p)"
  using names_of_append_dir [OF dir_part_no_filename, of p "filename p"]
  by (simp add: dir_part_filename names_of_parent_path)

lemma is_absolute_append: "a \<noteq> [] \<Longrightarrow> is_absolute (a @ b) = is_absolute a"
  by (cases a) (simp_all add: is_absolute_def)

lemma strip_seps_prefix: "\<exists>s. p = strip_seps p @ s"
proof -
  have "rev (takeWhile is_sep (rev p) @ dropWhile is_sep (rev p)) = p" by simp
  then have "p = strip_seps p @ rev (takeWhile is_sep (rev p))"
    by (simp add: strip_seps_def del: takeWhile_dropWhile_id)
  then show ?thesis ..
qed

lemma is_absolute_parent_path:
  assumes "filename p \<noteq> []"
  shows "is_absolute (parent_path p) = is_absolute p"
proof -
  have p: "p = dir_part p @ filename p" by (simp add: dir_part_filename)
  have fn: "\<not> is_absolute (filename p)"
    using assms filename_no_sep [of "hd (filename p)" p] by (cases "filename p") (auto simp: is_absolute_def)
  show ?thesis
  proof (cases "strip_seps (dir_part p) = []")
    case True
    then have d: "parent_path p = dir_part p" by (simp add: parent_path_def Let_def)
    show ?thesis
    proof (cases "dir_part p = []")
      case True
      then show ?thesis using d p fn by (simp add: is_absolute_def)
    next
      case False
      then show ?thesis using d is_absolute_append [OF False, of "filename p"] p by simp
    qed
  next
    case False
    then have d: "parent_path p = strip_seps (dir_part p)" by (simp add: parent_path_def Let_def)
    obtain s where s: "dir_part p = strip_seps (dir_part p) @ s" using strip_seps_prefix by blast
    have "p = strip_seps (dir_part p) @ (s @ filename p)" using p s by (metis append.assoc)
    then show ?thesis using d is_absolute_append [OF False, of "s @ filename p"] by simp
  qed
qed

lemma filename_clean:
  assumes "filename p \<noteq> []" and "filename p \<noteq> ''.''" and "filename p \<noteq> ''..''"
  shows "clean_name (filename p)" and "clean_name (filename p @ ''-SPC'')"
  using assms filename_no_sep [of _ p]
  by (auto simp: clean_name_def list_ex_iff is_sep_def)

lemma sibling_root:
  assumes "filename inPath \<noteq> []" and "filename inPath \<noteq> ''.''" and "filename inPath \<noteq> ''..''"
  shows "weakly_canonical w inPath = weakly_canonical w (parent_path inPath) @ [filename inPath]"
    and "weakly_canonical w (converted_dir inPath) =
           weakly_canonical w (parent_path inPath) @ [filename inPath @ ''-SPC'']"
proof -
  note c = filename_clean [OF assms]
  have n: "names_of inPath = names_of (parent_path inPath) @ [filename inPath]"
    using names_of_split [of inPath] names_of_clean [OF c(1)] by simp
  have a: "is_absolute (parent_path inPath) = is_absolute inPath"
    by (rule is_absolute_parent_path [OF assms(1)])
  have "names_of (absolute w inPath) = names_of (absolute w (parent_path inPath)) @ [filename inPath]"
  proof (cases "is_absolute inPath")
    case True
    then show ?thesis using a n by (simp add: absolute_def)
  next
    case False
    then show ?thesis
      using a n names_of_path_append [of inPath "cwd w"] names_of_path_append [of "parent_path inPath" "cwd w"]
      by (simp add: absolute_def)
  qed
  then show "weakly_canonical w inPath = weakly_canonical w (parent_path inPath) @ [filename inPath]"
    using normal_names_append_clean [of "[filename inPath]"] c(1)
    by (simp add: weakly_canonical_absolute)
  have "names_of (absolute w (foldl path_append (parent_path inPath) [filename inPath @ ''-SPC''])) =
          names_of (absolute w (parent_path inPath)) @ [filename inPath @ ''-SPC'']"
    by (rule names_of_absolute_joined) (simp add: c(2))
  then show "weakly_canonical w (converted_dir inPath) =
           weakly_canonical w (parent_path inPath) @ [filename inPath @ ''-SPC'']"
    using normal_names_append_clean [of "[filename inPath @ ''-SPC'']"] c(2)
    by (simp add: weakly_canonical_absolute converted_dir_def)
qed

text \<open>
  Claim C5 says that in directory mode the destination root is a sibling of the input
  directory, named after it with \<open>-SPC\<close> added. That is what the code computes for
  \<open>music\<close>, but not for an input path that ends in a separator: the filename of \<open>music/\<close> is
  empty and its parent path is \<open>music\<close>, so the destination root is \<open>music/-SPC\<close>, a
  directory named \<open>-SPC\<close> inside the input directory, and every file is converted into it.
\<close>

theorem trailing_separator_root:
  "converted_dir ''music/'' = ''music/-SPC'' \<and>
   weakly_canonical demo_world ''music/'' = [''home'', ''music''] \<and>
   weakly_canonical demo_world (converted_dir ''music/'') = [''home'', ''music'', ''-SPC''] \<and>
   status demo_world ''music/'' = Directory \<and>
   engine_calls (calls (snd (main demo_lib ''music/'' (demo_converter, demo_world)))) =
     [(''music/a.wav'', ''music/-SPC/a.wav''), (''music/bad.mp3'', ''music/-SPC/bad.mp3''),
      (''music/x/b.wav'', ''music/-SPC/x/b.wav'')]"
proof -
  have s: "status demo_world ''music/'' = Directory" "calls demo_world = []"
    by (simp_all add: demo_world_def)
  have m: "main demo_lib ''music/'' (demo_converter, demo_world) =
             processDirectory demo_lib ''music/'' True (demo_converter, demo_world)"
    using s(1) by (rule main_directory)
  have "engine_calls (calls (snd (processDirectory demo_lib ''music/'' True (demo_converter, demo_world)))) =
     [(''music/a.wav'', ''music/-SPC/a.wav''), (''music/bad.mp3'', ''music/-SPC/bad.mp3''),
      (''music/x/b.wav'', ''music/-SPC/x/b.wav'')]"
    using destination_cwd [of "create_directory ''music/-SPC'' demo_world" demo_world]
    by (simp add: processDirectory_eq dir_loop_engine_calls create_directory_frame
          demo_file_list demo_converted_dir demo_destination s)
  then show ?thesis using s m by (simp add: demo_converted_dir demo_canonical)
qed

end
